theory Spec2Isabelle
  imports Complex_Main "HOL-Library.Sublist" "HOL-Library.Log_Nat"
begin

section \<open>The Teams reporter: data model\<close>

text \<open>
  The development follows \<^verbatim>\<open>src/reporters/teamsReporter.ts\<close>, a reporter that a test runner
  drives through \<^verbatim>\<open>onBegin\<close>, \<^verbatim>\<open>onTestEnd\<close> and \<^verbatim>\<open>onEnd\<close>.

  A JavaScript string is a sequence of code units and is modelled as a \<^typ>\<open>string\<close>, so
  that \<^const>\<open>length\<close> is the source's \<^verbatim>\<open>.length\<close>. The literals of the source that hold
  an emoji are kept apart from the text around them, as constructors of a datatype. The
  counters are JavaScript numbers that only grow by \<^verbatim>\<open>++\<close> from 0, far below \<open>2^53\<close>; they
  are natural numbers. Console output is not modelled, except for the line that reports a
  skipped notification.
\<close>

subsection \<open>Configuration constants\<close>

definition MAX_FAILED_TESTS_DISPLAY :: nat where
  "MAX_FAILED_TESTS_DISPLAY = 10"

definition MAX_FLAKY_TESTS_DISPLAY :: nat where
  "MAX_FLAKY_TESTS_DISPLAY = 5"

definition ERROR_TRUNCATE_LENGTH :: int where
  "ERROR_TRUNCATE_LENGTH = 200"

definition MAX_BACKOFF_MS :: nat where
  "MAX_BACKOFF_MS = 5000"

subsection \<open>What the test runner reports\<close>

text \<open>
  The types \<^verbatim>\<open>TestCase\<close> and \<^verbatim>\<open>TestResult\<close> are the test runner's (the source imports them
  from \<^verbatim>\<open>@playwright/test/reporter\<close>); the records below keep the fields that the source
  reads. The runner's \<^verbatim>\<open>TestResult.status\<close> is a union of five string literals. The source
  compares it with \<^verbatim>\<open>'passed'\<close>, \<^verbatim>\<open>'failed'\<close>, \<^verbatim>\<open>'skipped'\<close> and \<^verbatim>\<open>'timedOut'\<close>; the
  runner's remaining literal, \<^verbatim>\<open>'interrupted'\<close> (a test cut short when the run is stopped), is
  named by no branch of the source.
\<close>

datatype status = Passed | Failed | TimedOut | Skipped | Interrupted

record test_error =
  message :: "string option"
  stack :: "string option"

record location =
  loc_file :: string
  loc_line :: nat
  loc_column :: nat

record test_case =
  test_id :: string
  title :: string
  location :: "location option"

record test_result =
  status :: status
  retry :: nat
  error :: "test_error option"

subsection \<open>The reporter's state\<close>

text \<open>One element of \<^verbatim>\<open>results\<close>: the object \<^verbatim>\<open>{ result, retry: result.retry }\<close>.\<close>

record attempt =
  result :: test_result
  attempt_retry :: nat

text \<open>One value of the map \<^verbatim>\<open>testAttempts\<close>: the object \<^verbatim>\<open>{ test, results }\<close>.\<close>

record attempts_entry =
  test :: test_case
  results :: "attempt list"

record counts =
  passed :: nat
  failed :: nat
  skipped :: nat
  flaky :: nat
  timedout :: nat

record failed_test =
  failed_title :: string
  failed_error :: string
  failed_stack :: string
  failed_location :: string

record flaky_test =
  flaky_title :: string
  attempts :: nat

text \<open>
  A JavaScript \<^verbatim>\<open>Map\<close> iterates in insertion order, and the classifier appends to two
  arrays while it iterates: \<^verbatim>\<open>testAttempts\<close> is an association list in insertion order.
\<close>

record reporter =
  webhookUrl :: "string option"
  projectName :: string
  testResults :: counts
  failedTests :: "failed_test list"
  flakyTests :: "flaky_test list"
  testAttempts :: "(string \<times> attempts_entry) list"

text \<open>
  The fields as the class initialises them. The constructor reads the webhook address from
  the environment and the project name from \<^verbatim>\<open>package.json\<close>; both are parameters here.
\<close>

definition new_reporter :: "string option \<Rightarrow> string \<Rightarrow> reporter" where
  "new_reporter url name =
     \<lparr>webhookUrl = url, projectName = name,
      testResults = \<lparr>passed = 0, failed = 0, skipped = 0, flaky = 0, timedout = 0\<rparr>,
      failedTests = [], flakyTests = [], testAttempts = []\<rparr>"

subsection \<open>Recording an attempt\<close>

text \<open>
  \<^verbatim>\<open>
  onTestEnd(test: TestCase, result: TestResult): void {
    const testId = test.id;
    if (!this.testAttempts.has(testId)) {
      this.testAttempts.set(testId, { test, results: [] });
    }
    this.testAttempts.get(testId)!.results.push({ result, retry: result.retry });
  }
  \<close>
\<close>

definition has :: "(string \<times> attempts_entry) list \<Rightarrow> string \<Rightarrow> bool" where
  "has m testId = (testId \<in> set (map fst m))"

fun push_result :: "string \<Rightarrow> attempt \<Rightarrow> (string \<times> attempts_entry) list
    \<Rightarrow> (string \<times> attempts_entry) list" where
  "push_result testId a [] = []"
| "push_result testId a ((k, data) # m) =
     (if k = testId then (k, data\<lparr>results := results data @ [a]\<rparr>) # m
      else (k, data) # push_result testId a m)"

definition onTestEnd :: "reporter \<Rightarrow> test_case \<Rightarrow> test_result \<Rightarrow> reporter" where
  "onTestEnd st t r =
     (let testId = test_id t;
          m = (if \<not> has (testAttempts st) testId
               then testAttempts st @ [(testId, \<lparr>test = t, results = []\<rparr>)]
               else testAttempts st)
      in st\<lparr>testAttempts := push_result testId \<lparr>result = r, attempt_retry = retry r\<rparr> m\<rparr>)"

subsection \<open>Strings: lines and decimal numbers\<close>

text \<open>
  \<^verbatim>\<open>s.split('\n')\<close> cuts at every line feed and always returns at least one piece;
  \<^verbatim>\<open>pieces.join('\n')\<close> puts a line feed between consecutive pieces.
\<close>

definition line_feed :: char where
  "line_feed = CHR 0x0A"

fun split_nl :: "string \<Rightarrow> string list" where
  "split_nl [] = [[]]"
| "split_nl (c # cs) =
     (if c = line_feed then [] # split_nl cs
      else (case split_nl cs of
              l # ls \<Rightarrow> (c # l) # ls
            | [] \<Rightarrow> [[c]]))"

fun join_nl :: "string list \<Rightarrow> string" where
  "join_nl [] = []"
| "join_nl [l] = l"
| "join_nl (l # l' # ls) = l @ line_feed # join_nl (l' # ls)"

text \<open>A non-negative integer in a template literal is written in decimal.\<close>

definition digit :: "nat \<Rightarrow> char" where
  "digit d = ''0123456789'' ! d"

fun show_nat :: "nat \<Rightarrow> string" where
  "show_nat n = (if n < 10 then [digit n] else show_nat (n div 10) @ [digit (n mod 10)])"

declare show_nat.simps [simp del]

subsection \<open>Classifying the attempts\<close>

text \<open>
  \<^verbatim>\<open>
  private captureFailedTest(test: TestCase, result: TestResult): void {
    const errorMessage = result.error?.message || 'No error message available';
    const stackTrace = result.error?.stack || '';
    const stackLines = stackTrace.split('\n').slice(0, 3).join('\n');
    const location = test.location ? `${test.location.file}:${test.location.line}`
                                   : 'Unknown location';
    this.failedTests.push({ title: test.title, error: errorMessage, stack: stackLines, location });
  }
  \<close>
  \<^verbatim>\<open>x || d\<close> yields \<open>d\<close> when \<open>x\<close> is undefined and also when it is the empty string.
\<close>

definition or_default :: "string option \<Rightarrow> string \<Rightarrow> string" where
  "or_default x d = (case x of None \<Rightarrow> d | Some s \<Rightarrow> if s = [] then d else s)"

definition captureFailedTest :: "reporter \<Rightarrow> test_case \<Rightarrow> test_result \<Rightarrow> reporter" where
  "captureFailedTest st t r =
     (let errorMessage = or_default (Option.bind (error r) message) ''No error message available'';
          stackTrace = or_default (Option.bind (error r) stack) [];
          stackLines = join_nl (take 3 (split_nl stackTrace));
          loc = (case location t of
                   Some l \<Rightarrow> loc_file l @ '':'' @ show_nat (loc_line l)
                 | None \<Rightarrow> ''Unknown location'')
      in st\<lparr>failedTests := failedTests st @
            [\<lparr>failed_title = title t, failed_error = errorMessage, failed_stack = stackLines,
              failed_location = loc\<rparr>]\<rparr>)"

text \<open>
  The body of the loop of \<^verbatim>\<open>processTestResults\<close>, for one entry of the map. Reading
  \<^verbatim>\<open>results[results.length - 1].result\<close> from an empty array throws a \<^verbatim>\<open>TypeError\<close>. The
  chain of comparisons has no final \<^verbatim>\<open>else\<close>: a status that no branch names changes nothing.
  \<^verbatim>\<open>
  const finalResult = results[results.length - 1].result;
  const hadFailures = results.some(r => r.result.status === 'failed'
                                     || r.result.status === 'timedOut');
  if (finalResult.status === 'passed') {
    if (hadFailures && results.length > 1) {
      this.testResults.flaky++;
      this.flakyTests.push({ title: test.title, attempts: results.length });
    } else {
      this.testResults.passed++;
    }
  } else if (finalResult.status === 'failed') {
    this.testResults.failed++;
    this.captureFailedTest(test, finalResult);
  } else if (finalResult.status === 'skipped') {
    this.testResults.skipped++;
  } else if (finalResult.status === 'timedOut') {
    this.testResults.timedout++;
    this.captureFailedTest(test, finalResult);
  }
  \<close>
\<close>

datatype js_error = TypeError

definition processEntry :: "reporter \<Rightarrow> attempts_entry \<Rightarrow> js_error + reporter" where
  "processEntry st data =
     (if results data = [] then Inl TypeError
      else
        let finalResult = result (last (results data));
            hadFailures = list_ex (\<lambda>r. status (result r) = Failed \<or> status (result r) = TimedOut)
                            (results data)
        in
          if status finalResult = Passed then
            if hadFailures \<and> length (results data) > 1 then
              Inr (st\<lparr>testResults := (testResults st)\<lparr>flaky := flaky (testResults st) + 1\<rparr>,
                      flakyTests := flakyTests st @
                        [\<lparr>flaky_title = title (test data), attempts = length (results data)\<rparr>]\<rparr>)
            else
              Inr (st\<lparr>testResults := (testResults st)\<lparr>passed := passed (testResults st) + 1\<rparr>\<rparr>)
          else if status finalResult = Failed then
            Inr (captureFailedTest
                   (st\<lparr>testResults := (testResults st)\<lparr>failed := failed (testResults st) + 1\<rparr>\<rparr>)
                   (test data) finalResult)
          else if status finalResult = Skipped then
            Inr (st\<lparr>testResults := (testResults st)\<lparr>skipped := skipped (testResults st) + 1\<rparr>\<rparr>)
          else if status finalResult = TimedOut then
            Inr (captureFailedTest
                   (st\<lparr>testResults := (testResults st)\<lparr>timedout := timedout (testResults st) + 1\<rparr>\<rparr>)
                   (test data) finalResult)
          else Inr st)"

fun processEntries :: "reporter \<Rightarrow> (string \<times> attempts_entry) list \<Rightarrow> js_error + reporter" where
  "processEntries st [] = Inr st"
| "processEntries st ((testId, data) # rest) =
     (case processEntry st data of
        Inl e \<Rightarrow> Inl e
      | Inr st' \<Rightarrow> processEntries st' rest)"

definition processTestResults :: "reporter \<Rightarrow> js_error + reporter" where
  "processTestResults st = processEntries st (testAttempts st)"

section \<open>The message card\<close>

subsection \<open>Truncating an error message\<close>

text \<open>
  \<^verbatim>\<open>
  private truncateError(error: string, maxLength: number): string {
    if (error.length <= maxLength) {
      return error;
    }
    return error.substring(0, maxLength - 3) + '...';
  }
  \<close>
  \<^verbatim>\<open>substring(0, n)\<close> takes \<open>n\<close> as 0 when it is negative and stops at the end of the
  string; \<^const>\<open>take\<close> on \<open>nat (max 0 n)\<close> does the same.
\<close>

definition substring0 :: "string \<Rightarrow> int \<Rightarrow> string" where
  "substring0 s n = take (nat (max 0 n)) s"

definition truncateError :: "string \<Rightarrow> int \<Rightarrow> string" where
  "truncateError msg maxLength =
     (if int (length msg) \<le> maxLength then msg
      else substring0 msg (maxLength - 3) @ ''...'')"

subsection \<open>Double-precision arithmetic of the pass rate\<close>

text \<open>
  The pass rate is computed as \<^verbatim>\<open>((passed + flaky) / totalTests * 100).toFixed(1)\<close> on
  JavaScript numbers, which are binary64 floating-point values. A finite double is a
  rational number, and the language rounds the exact result of each operation to the
  nearest double, ties to the even significand. \<open>fl\<close> is that rounding for the normal
  range of binary64 (53-bit significands); the operands of the pass rate are counters below
  \<open>2^53\<close> with \<open>passed + flaky \<le> totalTests\<close>, so the quotient is zero or lies in
  \<open>[2^-53, 1]\<close> and the product is zero or lies in \<open>[2^-47, 100]\<close>, where neither overflow
  nor subnormal numbers occur. Zero is rounded to zero.

  \<open>binade q\<close> is the exponent \<open>e\<close> with \<open>2^e \<le> q < 2^(e+1)\<close> of a positive rational: the
  difference of the bit lengths of numerator and denominator, or one less.
\<close>

definition round_half_even :: "rat \<Rightarrow> int" where
  "round_half_even q =
     (let f = \<lfloor>q\<rfloor>; d = q - of_int f
      in if d < 1 / 2 then f else if 1 / 2 < d then f + 1 else if even f then f else f + 1)"

definition binade :: "rat \<Rightarrow> int" where
  "binade q =
     (let (n, d) = quotient_of q;
          e = bitlen n - bitlen d
      in if 2 powi e \<le> q then e else e - 1)"

definition fl :: "rat \<Rightarrow> rat" where
  "fl q =
     (if q = 0 then 0
      else let ulp = 2 powi (binade \<bar>q\<bar> - 52)
           in sgn q * of_int (round_half_even (\<bar>q\<bar> / ulp)) * ulp)"

definition js_div :: "rat \<Rightarrow> rat \<Rightarrow> rat" where
  "js_div x y = fl (x / y)"

definition js_mul :: "rat \<Rightarrow> rat \<Rightarrow> rat" where
  "js_mul x y = fl (x * y)"

text \<open>
  \<^verbatim>\<open>x.toFixed(1)\<close> for \<open>0 \<le> x < 10^21\<close>: with \<open>n\<close> the integer for which \<open>n / 10 - x\<close> is
  closest to zero, the larger one of two, the digits of \<open>n\<close> with a point before the last.
\<close>

definition toFixed1 :: "rat \<Rightarrow> string" where
  "toFixed1 x =
     (let n = nat \<lfloor>x * 10 + 1 / 2\<rfloor>
      in show_nat (n div 10) @ ''.'' @ show_nat (n mod 10))"

subsection \<open>Overall status and theme colour\<close>

text \<open>
  \<^verbatim>\<open>
  private getOverallStatus(): { emoji: string; text: string } {
    if (this.testResults.failed > 0 || this.testResults.timedout > 0) {
      return { emoji: <cross mark>, text: 'FAILED' };
    }
    if (this.testResults.flaky > 0) {
      return { emoji: <warning sign>, text: 'UNSTABLE' };
    }
    return { emoji: <check mark>, text: 'PASSED' };
  }
  private getThemeColor(): string {
    if (this.testResults.failed > 0 || this.testResults.timedout > 0) {
      return 'dc3545'; // Red
    }
    if (this.testResults.flaky > 0) {
      return 'ffc107'; // Yellow/Orange
    }
    return '28a745'; // Green
  }
  \<close>
\<close>

datatype emoji = CrossMark | WarningSign | CheckMark

record overall_status =
  status_emoji :: emoji
  status_text :: string

definition getOverallStatus :: "reporter \<Rightarrow> overall_status" where
  "getOverallStatus st =
     (if failed (testResults st) > 0 \<or> timedout (testResults st) > 0
      then \<lparr>status_emoji = CrossMark, status_text = ''FAILED''\<rparr>
      else if flaky (testResults st) > 0
      then \<lparr>status_emoji = WarningSign, status_text = ''UNSTABLE''\<rparr>
      else \<lparr>status_emoji = CheckMark, status_text = ''PASSED''\<rparr>)"

definition getThemeColor :: "reporter \<Rightarrow> string" where
  "getThemeColor st =
     (if failed (testResults st) > 0 \<or> timedout (testResults st) > 0 then ''dc3545''
      else if flaky (testResults st) > 0 then ''ffc107''
      else ''28a745'')"

subsection \<open>Building the card\<close>

text \<open>
  The six facts of the first section are named by a datatype, in the order of the source:
  total tests, passed, failed, skipped, flaky, pass rate. Each section of the card keeps
  the parts of its title that vary: the summary section its emoji, the text after it and
  the subtitle; the failed and flaky sections the count shown in their title; the note
  after the failed tests the number of tests left out. The environment facts and the
  report address come from \<^verbatim>\<open>process.env\<close> and are parameters.
  \<^verbatim>\<open>
  const totalTests = this.testResults.passed + this.testResults.failed
    + this.testResults.skipped + this.testResults.flaky + this.testResults.timedout;
  const totalFailed = this.testResults.failed + this.testResults.timedout;
  const passRate = totalTests > 0
    ? ((this.testResults.passed + this.testResults.flaky) / totalTests * 100).toFixed(1)
    : '0.0';
  facts: [
    { name: 'Total Tests:', value: `${totalTests}` },
    { name: 'Passed:', value: `${this.testResults.passed}` },
    { name: 'Failed:', value: `${totalFailed}` },
    { name: 'Skipped:', value: `${this.testResults.skipped}` },
    { name: 'Flaky:', value: `${this.testResults.flaky}` },
    { name: 'Pass Rate:', value: `${passRate}%` },
  ]
  \<close>
\<close>

datatype fact_name = TotalTests | PassedTests | FailedTests | SkippedTests | FlakyTests | PassRate

datatype card_section =
    SummarySection emoji string string "(fact_name \<times> string) list"
  | EnvironmentSection "(string \<times> string) list"
  | FailedSection nat "(string \<times> string) list"
  | MoreFailedNote nat
  | FlakySection nat "(string \<times> string) list"

record message_card =
  summary :: string
  themeColor :: string
  sections :: "card_section list"
  potentialAction :: "string list"

definition summary_facts :: "reporter \<Rightarrow> (fact_name \<times> string) list" where
  "summary_facts st =
     (let c = testResults st;
          totalTests = passed c + failed c + skipped c + flaky c + timedout c;
          totalFailed = failed c + timedout c;
          passRate =
            (if totalTests > 0
             then toFixed1 (js_mul (js_div (of_nat (passed c + flaky c)) (of_nat totalTests)) 100)
             else ''0.0'')
      in [(TotalTests, show_nat totalTests),
          (PassedTests, show_nat (passed c)),
          (FailedTests, show_nat totalFailed),
          (SkippedTests, show_nat (skipped c)),
          (FlakyTests, show_nat (flaky c)),
          (PassRate, passRate @ ''%'')])"

text \<open>The name of a listed test: \<^verbatim>\<open>`${index + 1}. ${test.title}`\<close>.\<close>

definition numbered :: "nat \<Rightarrow> string \<Rightarrow> string" where
  "numbered index t = show_nat (index + 1) @ ''. '' @ t"

definition buildMessageCard ::
    "reporter \<Rightarrow> string \<Rightarrow> string \<Rightarrow> (string \<times> string) list \<Rightarrow> string option \<Rightarrow> message_card" where
  "buildMessageCard st duration timestamp ciMetadata reportUrl =
     (let overallStatus = getOverallStatus st;
          color = getThemeColor st;
          first = [SummarySection (status_emoji overallStatus)
                     (projectName st @ '' - Test Execution Complete'')
                     (''Executed on '' @ timestamp @ '' | Duration: '' @ duration)
                     (summary_facts st)];
          env = (if length ciMetadata > 0 then [EnvironmentSection ciMetadata] else []);
          failedPart =
            (if length (failedTests st) > 0 then
               [FailedSection (length (failedTests st))
                  (map (\<lambda>(index, t). (numbered index (failed_title t),
                                        truncateError (failed_error t) ERROR_TRUNCATE_LENGTH))
                     (enumerate 0 (take MAX_FAILED_TESTS_DISPLAY (failedTests st))))]
               @ (if length (failedTests st) > MAX_FAILED_TESTS_DISPLAY
                  then [MoreFailedNote (length (failedTests st) - MAX_FAILED_TESTS_DISPLAY)]
                  else [])
             else []);
          flakyPart =
            (if length (flakyTests st) > 0 then
               [FlakySection (length (flakyTests st))
                  (map (\<lambda>(index, t). (numbered index (flaky_title t),
                                        ''Passed after '' @ show_nat (attempts t) @ '' attempts''))
                     (enumerate 0 (take MAX_FLAKY_TESTS_DISPLAY (flakyTests st))))]
             else []);
          actions = (case reportUrl of None \<Rightarrow> [] | Some u \<Rightarrow> if u = [] then [] else [u])
      in \<lparr>summary = ''Playwright Test Results - '' @ status_text overallStatus,
          themeColor = color,
          sections = first @ env @ failedPart @ flakyPart,
          potentialAction = actions\<rparr>)"

text \<open>Reading a fact of the summary section back from a card.\<close>

fun summary_of :: "card_section list \<Rightarrow> (fact_name \<times> string) list" where
  "summary_of (SummarySection e t s fs # rest) = fs"
| "summary_of (x # rest) = summary_of rest"
| "summary_of [] = []"

definition fact_value :: "message_card \<Rightarrow> fact_name \<Rightarrow> string option" where
  "fact_value messageCard n = map_of (summary_of (sections messageCard)) n"

section \<open>The delivery client\<close>

text \<open>
  What the endpoint and the network do with one request is the environment's choice: an
  HTTP response with a status, or a failure of the transport (a timeout is axios's
  \<^verbatim>\<open>ECONNABORTED\<close>, an unknown host \<^verbatim>\<open>ENOTFOUND\<close>, a refused connection \<^verbatim>\<open>ECONNREFUSED\<close>).
  The request is made with \<^verbatim>\<open>validateStatus: (status) => status < 500\<close>: axios resolves
  with the response when the predicate holds and rejects otherwise, so a status of 500 or
  more reaches the \<^verbatim>\<open>catch\<close> block like a transport failure does.
\<close>

datatype error_code = ECONNABORTED | ENOTFOUND | ECONNREFUSED | OtherCode

datatype net_result = HttpStatus nat | TransportFailure error_code

datatype axios_error = BadStatus nat | NoResponse error_code

definition validateStatus :: "nat \<Rightarrow> bool" where
  "validateStatus code = (code < 500)"

definition axios_post :: "net_result \<Rightarrow> axios_error + nat" where
  "axios_post r =
     (case r of
        HttpStatus code \<Rightarrow>
          if validateStatus code then Inr code else Inl (BadStatus code)
      | TransportFailure c \<Rightarrow> Inl (NoResponse c))"

text \<open>
  The observable actions of a delivery: the request of an attempt, a wait in milliseconds,
  and a line on the console. The method returns nothing; the three ways it ends are told
  apart by where it returns: after a 2xx response (\<open>SentOk\<close>), after a 4xx response
  (\<open>ClientError\<close>), or by leaving the loop (\<open>GaveUp\<close>). The specification's two outcomes
  group them.
\<close>

datatype event = Send nat | Sleep nat | Log string

datatype exit = SentOk | ClientError | GaveUp

datatype delivery_outcome = Delivered | Abandoned

fun outcome_of :: "exit \<Rightarrow> delivery_outcome" where
  "outcome_of SentOk = Delivered"
| "outcome_of ClientError = Abandoned"
| "outcome_of GaveUp = Abandoned"

text \<open>
  \<^verbatim>\<open>Math.min(1000 * Math.pow(2, attempt - 1), MAX_BACKOFF_MS)\<close>. Where the power exceeds the
  range of a double the source computes with \<^verbatim>\<open>Infinity\<close>, and the minimum is the cap as here.
\<close>

definition waitTime :: "nat \<Rightarrow> nat" where
  "waitTime attempt = min (1000 * 2 ^ (attempt - 1)) MAX_BACKOFF_MS"

text \<open>
  The loop of \<^verbatim>\<open>sendWebhookWithRetry\<close>, from a given value of \<^verbatim>\<open>attempt\<close> on; \<open>net\<close> gives
  the environment's answer to the request of each attempt.
  \<^verbatim>\<open>
  for (let attempt = 1; attempt <= maxRetries; attempt++) {
    try {
      const response = await axios.post(this.webhookUrl, messageCard, {
        headers: { 'Content-Type': 'application/json' },
        timeout: WEBHOOK_TIMEOUT_MS,
        validateStatus: (status: number) => status < 500,
      });
      if (response.status >= 200 && response.status < 300) {
        return; // Success - exit retry loop
      } else {
        // Don't retry on 4xx errors (client errors - bad request, auth, etc.)
        if (response.status >= 400 && response.status < 500) {
          return;
        }
      }
    } catch (error) {
      // Wait before retrying (exponential backoff)
      if (attempt < maxRetries) {
        const waitTime = Math.min(1000 * Math.pow(2, attempt - 1), MAX_BACKOFF_MS);
        await new Promise(resolve => setTimeout(resolve, waitTime));
      }
    }
  }
  \<close>
\<close>

function sendLoop :: "(nat \<Rightarrow> net_result) \<Rightarrow> nat \<Rightarrow> nat \<Rightarrow> exit \<times> event list" where
  "sendLoop net maxRetries attempt =
     (if attempt \<le> maxRetries then
        (case axios_post (net attempt) of
           Inr code \<Rightarrow>
             if 200 \<le> code \<and> code < 300 then (SentOk, [Send attempt])
             else if 400 \<le> code \<and> code < 500 then (ClientError, [Send attempt])
             else apsnd ((#) (Send attempt)) (sendLoop net maxRetries (attempt + 1))
         | Inl err \<Rightarrow>
             if attempt < maxRetries then
               apsnd ((@) [Send attempt, Sleep (waitTime attempt)])
                 (sendLoop net maxRetries (attempt + 1))
             else apsnd ((#) (Send attempt)) (sendLoop net maxRetries (attempt + 1)))
      else (GaveUp, []))"
  by pat_completeness auto
termination
  by (relation "measure (\<lambda>(net, maxRetries, attempt). maxRetries + 1 - attempt)") auto

declare sendLoop.simps [simp del]

text \<open>The answer of the environment may depend on the payload as well as on the attempt.\<close>

definition sendWebhookWithRetry ::
    "('p \<Rightarrow> nat \<Rightarrow> net_result) \<Rightarrow> 'p \<Rightarrow> nat \<Rightarrow> exit \<times> event list" where
  "sendWebhookWithRetry net messageCard maxRetries = sendLoop (net messageCard) maxRetries 1"

section \<open>The end of the run\<close>

text \<open>
  \<^verbatim>\<open>
  async onEnd(result: FullResult): Promise<void> {
    if (!this.webhookUrl) {
      console.log('Skipping Teams notification (no webhook URL configured)');
      return;
    }
    this.processTestResults();
    const duration = this.formatDuration(Date.now() - this.startTime);
    const timestamp = new Date().toLocaleString('en-IN', { ... });
    const messageCard = this.buildMessageCard(duration, timestamp);
    await this.sendWebhookWithRetry(messageCard, 3);
  }
  \<close>
  \<^verbatim>\<open>!this.webhookUrl\<close> holds for an undefined address and for the empty string. The clock
  and the locale are the environment's: \<open>duration\<close> and \<open>timestamp\<close> are parameters. The
  result is the reporter after the call, how the delivery ended (\<open>None\<close> when none was
  started) and the actions in order, or the error thrown.
\<close>

definition truthy :: "string option \<Rightarrow> bool" where
  "truthy x = (case x of None \<Rightarrow> False | Some s \<Rightarrow> s \<noteq> [])"

definition onEnd ::
    "reporter \<Rightarrow> string \<Rightarrow> string \<Rightarrow> (string \<times> string) list \<Rightarrow> string option
     \<Rightarrow> (message_card \<Rightarrow> nat \<Rightarrow> net_result)
     \<Rightarrow> js_error + (reporter \<times> exit option \<times> event list)" where
  "onEnd st duration timestamp ciMetadata reportUrl net =
     (if \<not> truthy (webhookUrl st) then
        Inr (st, None, [Log ''Skipping Teams notification (no webhook URL configured)''])
      else
        (case processTestResults st of
           Inl e \<Rightarrow> Inl e
         | Inr st' \<Rightarrow>
             (let messageCard = buildMessageCard st' duration timestamp ciMetadata reportUrl;
                  (x, tr) = sendWebhookWithRetry net messageCard 3
              in Inr (st', Some x, tr))))"

section \<open>Notions used in the statements\<close>

text \<open>The sum that the card shows as the total number of tests.\<close>

definition total :: "counts \<Rightarrow> nat" where
  "total c = passed c + failed c + skipped c + flaky c + timedout c"

definition final_status :: "attempts_entry \<Rightarrow> status" where
  "final_status data = status (result (last (results data)))"

text \<open>A run of the test runner: the calls of \<^verbatim>\<open>onTestEnd\<close> in order.\<close>

fun run_events :: "reporter \<Rightarrow> (test_case \<times> test_result) list \<Rightarrow> reporter" where
  "run_events st [] = st"
| "run_events st ((t, r) # evs) = run_events (onTestEnd st t r) evs"

text \<open>
  The map as \<^verbatim>\<open>onTestEnd\<close> keeps it: one entry per identity, and no entry without an
  attempt.
\<close>

definition store_ok :: "(string \<times> attempts_entry) list \<Rightarrow> bool" where
  "store_ok m = (distinct (map fst m) \<and> (\<forall>(k, d) \<in> set m. results d \<noteq> []))"

text \<open>No recorded attempt is interrupted.\<close>

definition all_handled :: "(string \<times> attempts_entry) list \<Rightarrow> bool" where
  "all_handled m = (\<forall>(k, d) \<in> set m. \<forall>a \<in> set (results d). status (result a) \<noteq> Interrupted)"

text \<open>
  The specification's retryable failures: a status of 500 or more, or a failure of the
  transport.
\<close>

definition retryable :: "net_result \<Rightarrow> bool" where
  "retryable r = (case r of HttpStatus code \<Rightarrow> 500 \<le> code | TransportFailure c \<Rightarrow> True)"

fun is_send :: "event \<Rightarrow> bool" where
  "is_send (Send a) = True"
| "is_send (Sleep ms) = False"
| "is_send (Log l) = False"

text \<open>An endpoint that answers the attempts 1, 2, ... from a list, and then not at all.\<close>

fun script :: "net_result list \<Rightarrow> nat \<Rightarrow> net_result" where
  "script rs a =
     (if 1 \<le> a \<and> a \<le> length rs then rs ! (a - 1) else TransportFailure OtherCode)"

text \<open>
  The attempts that the events of a run record for the identity \<open>k\<close>, in the order of the
  events.
\<close>

definition attempts_of :: "string \<Rightarrow> (test_case \<times> test_result) list \<Rightarrow> attempt list" where
  "attempts_of k evs =
     map (\<lambda>(t, r). \<lparr>result = r, attempt_retry = retry r\<rparr>)
       (filter (\<lambda>(t, r). test_id t = k) evs)"

text \<open>Some attempt of the test failed or timed out.\<close>

definition had_failure :: "attempts_entry \<Rightarrow> bool" where
  "had_failure d =
     (\<exists>a \<in> set (results d). status (result a) = Failed \<or> status (result a) = TimedOut)"

text \<open>
  The detail that the specification asks for a failed or timed-out test, from its last
  attempt: the title; the error message or a placeholder; the first three lines of the stack
  trace (empty when there is none); the location as file, colon, line, or a placeholder.
\<close>

definition stack_trace_of :: "test_result \<Rightarrow> string" where
  "stack_trace_of r =
     (case error r of
        None \<Rightarrow> []
      | Some e \<Rightarrow> (case stack e of None \<Rightarrow> [] | Some s \<Rightarrow> s))"

definition failure_detail :: "attempts_entry \<Rightarrow> failed_test" where
  "failure_detail d =
     (let r = result (last (results d))
      in \<lparr>failed_title = title (test d),
          failed_error =
            (case error r of
               None \<Rightarrow> ''No error message available''
             | Some e \<Rightarrow>
                 (case message e of
                    None \<Rightarrow> ''No error message available''
                  | Some m \<Rightarrow> if m = [] then ''No error message available'' else m)),
          failed_stack = join_nl (take 3 (split_nl (stack_trace_of r))),
          failed_location =
            (case location (test d) of
               None \<Rightarrow> ''Unknown location''
             | Some l \<Rightarrow> loc_file l @ '':'' @ show_nat (loc_line l))\<rparr>)"

text \<open>Sample inputs.\<close>

definition sample_test :: "string \<Rightarrow> test_case" where
  "sample_test k =
     \<lparr>test_id = k, title = ''checkout '' @ k,
      location = Some \<lparr>loc_file = ''tests/checkout.spec.ts'', loc_line = 42, loc_column = 7\<rparr>\<rparr>"

definition sample_result :: "status \<Rightarrow> nat \<Rightarrow> test_result" where
  "sample_result s n =
     \<lparr>status = s, retry = n,
      error = (if s = Failed \<or> s = TimedOut
               then Some \<lparr>message = Some ''expected 200, received 500'',
                          stack = Some (''Error: expected'' @ [line_feed] @ ''  at a''
                            @ [line_feed] @ ''  at b'' @ [line_feed] @ ''  at c'')\<rparr>
               else None)\<rparr>"

definition sample_attempts :: "status list \<Rightarrow> attempt list" where
  "sample_attempts ss =
     map (\<lambda>(n, s). \<lparr>result = sample_result s n, attempt_retry = n\<rparr>) (enumerate 0 ss)"

text \<open>
  A run of seven tests: \<open>a\<close>, \<open>b\<close> and \<open>c\<close> pass at once, \<open>d\<close> fails and then passes, \<open>e\<close> fails
  twice, \<open>f\<close> is skipped, \<open>g\<close> passes and then times out.
\<close>

definition sample_run :: "(test_case \<times> test_result) list" where
  "sample_run =
     [(sample_test ''a'', sample_result Passed 0),
      (sample_test ''b'', sample_result Passed 0),
      (sample_test ''d'', sample_result Failed 0),
      (sample_test ''c'', sample_result Passed 0),
      (sample_test ''e'', sample_result Failed 0),
      (sample_test ''d'', sample_result Passed 1),
      (sample_test ''e'', sample_result Failed 1),
      (sample_test ''f'', sample_result Skipped 0),
      (sample_test ''g'', sample_result Passed 0),
      (sample_test ''g'', sample_result TimedOut 1)]"

definition sample_reporter :: reporter where
  "sample_reporter = new_reporter (Some ''https://example.test/hook'') ''demo''"

definition sample_counts :: "nat \<Rightarrow> nat \<Rightarrow> nat \<Rightarrow> nat \<Rightarrow> nat \<Rightarrow> reporter" where
  "sample_counts p f s k t =
     sample_reporter\<lparr>testResults :=
       \<lparr>passed = p, failed = f, skipped = s, flaky = k, timedout = t\<rparr>\<rparr>"

section \<open>The classifier\<close>

subsection \<open>Lines of a stack trace\<close>

lemma join_split_nl: "join_nl (split_nl s) = s"
proof (induction s)
  case Nil
  then show ?case by simp
next
  case (Cons c cs)
  then show ?case
    by (cases "split_nl cs" rule: join_nl.cases) auto
qed

lemma split_nl_nonempty: "split_nl s \<noteq> []"
  by (induction s) (auto split: list.splits)

lemma split_nl_no_line_feed: "l \<in> set (split_nl s) \<Longrightarrow> line_feed \<notin> set l"
proof (induction s arbitrary: l)
  case Nil
  then show ?case by simp
next
  case (Cons c cs)
  from split_nl_nonempty [of cs] obtain h t where ht: "split_nl cs = h # t"
    by (cases "split_nl cs") auto
  with Cons show ?case by (auto split: if_splits)
qed

lemma split_join_nl:
  "ls \<noteq> [] \<Longrightarrow> (\<forall>l \<in> set ls. line_feed \<notin> set l) \<Longrightarrow> split_nl (join_nl ls) = ls"
proof (induction ls rule: join_nl.induct)
  case 1
  then show ?case by simp
next
  case (2 l)
  then show ?case by (induction l) auto
next
  case (3 l l' ls)
  then have tl: "split_nl (join_nl (l' # ls)) = l' # ls" by simp
  from "3.prems" have "line_feed \<notin> set l" by simp
  then show ?case using tl by (induction l) auto
qed

lemma join_nl_take_prefix: "prefix (join_nl (take n ls)) (join_nl ls)"
proof (induction ls arbitrary: n rule: join_nl.induct)
  case 1
  then show ?case by simp
next
  case (2 l)
  then show ?case by (cases n) auto
next
  case (3 l l' ls)
  show ?case
  proof (cases n)
    case 0
    then show ?thesis by simp
  next
    case (Suc k)
    show ?thesis
    proof (cases k)
      case 0
      with Suc show ?thesis by simp
    next
      case (Suc j)
      with "3.IH" [of k] \<open>n = Suc k\<close> show ?thesis by simp
    qed
  qed
qed

lemma first_lines_prefix: "prefix (join_nl (take n (split_nl s))) s"
  using join_nl_take_prefix [of n "split_nl s"] by (simp add: join_split_nl)

lemma first_lines_count: "length (split_nl (join_nl (take (Suc n) (split_nl s)))) \<le> Suc n"
proof -
  have ne: "take (Suc n) (split_nl s) \<noteq> []"
    using split_nl_nonempty [of s] by (cases "split_nl s") auto
  have "\<forall>l \<in> set (take (Suc n) (split_nl s)). line_feed \<notin> set l"
    using split_nl_no_line_feed by (meson in_set_takeD)
  with ne have "split_nl (join_nl (take (Suc n) (split_nl s))) = take (Suc n) (split_nl s)"
    by (rule split_join_nl)
  then show ?thesis by simp
qed

lemma first_lines_short: "length (split_nl s) \<le> n \<Longrightarrow> join_nl (take n (split_nl s)) = s"
  by (simp add: join_split_nl)

lemma show_nat_42: "show_nat 42 = ''42''"
  by code_simp

subsection \<open>One test\<close>

text \<open>
  The body of the loop on a test whose last recorded attempt passed: the test is counted
  as flaky exactly when some attempt failed or timed out and there is more than one attempt,
  and then its title is recorded with the number of attempts; in every other case it is
  counted as passed. Nothing else of the reporter changes.
\<close>

lemma processEntry_last_passed:
  assumes "results data \<noteq> []" and "status (result (last (results data))) = Passed"
  shows "processEntry st data =
           Inr (if (\<exists>a \<in> set (results data).
                      status (result a) = Failed \<or> status (result a) = TimedOut)
                   \<and> length (results data) > 1
                then st\<lparr>testResults := (testResults st)\<lparr>flaky := flaky (testResults st) + 1\<rparr>,
                        flakyTests := flakyTests st @
                          [\<lparr>flaky_title = title (test data),
                            attempts = length (results data)\<rparr>]\<rparr>
                else st\<lparr>testResults := (testResults st)\<lparr>passed := passed (testResults st) + 1\<rparr>\<rparr>)"
  using assms by (simp add: processEntry_def list_ex_iff)

lemma processEntry_last_passed_example:
  "processEntry sample_reporter
     \<lparr>test = sample_test ''t1'', results = sample_attempts [Failed, TimedOut, Passed]\<rparr>
   = Inr (sample_reporter
       \<lparr>testResults := \<lparr>passed = 0, failed = 0, skipped = 0, flaky = 1, timedout = 0\<rparr>,
        flakyTests := [\<lparr>flaky_title = ''checkout t1'', attempts = 3\<rparr>]\<rparr>) \<and>
   processEntry sample_reporter
     \<lparr>test = sample_test ''t2'', results = sample_attempts [Passed]\<rparr>
   = Inr (sample_reporter
       \<lparr>testResults := \<lparr>passed = 1, failed = 0, skipped = 0, flaky = 0, timedout = 0\<rparr>\<rparr>) \<and>
   processEntry sample_reporter
     \<lparr>test = sample_test ''t3'', results = sample_attempts [Skipped, Passed]\<rparr>
   = Inr (sample_reporter
       \<lparr>testResults := \<lparr>passed = 1, failed = 0, skipped = 0, flaky = 0, timedout = 0\<rparr>\<rparr>)"
  using
    processEntry_last_passed [of "\<lparr>test = sample_test ''t1'',
      results = sample_attempts [Failed, TimedOut, Passed]\<rparr>" sample_reporter]
    processEntry_last_passed [of "\<lparr>test = sample_test ''t2'',
      results = sample_attempts [Passed]\<rparr>" sample_reporter]
    processEntry_last_passed [of "\<lparr>test = sample_test ''t3'',
      results = sample_attempts [Skipped, Passed]\<rparr>" sample_reporter]
  by (simp add: sample_attempts_def sample_result_def sample_test_def sample_reporter_def
      new_reporter_def enumerate_eq_zip upt_rec)

text \<open>
  The body of the loop on a test whose last recorded attempt did not pass: that attempt
  alone decides between Failed, Skipped and TimedOut, whatever the earlier attempts were,
  and Failed and TimedOut record the same detail of it.
\<close>

lemma processEntry_last_not_passed:
  assumes "results data = earlier @ [a]"
  shows "let r = result a;
             stackTrace = (case error r of
                             None \<Rightarrow> []
                           | Some e \<Rightarrow> (case stack e of None \<Rightarrow> [] | Some s \<Rightarrow> s));
             detail =
               \<lparr>failed_title = title (test data),
                failed_error =
                  (case error r of
                     None \<Rightarrow> ''No error message available''
                   | Some e \<Rightarrow>
                       (case message e of
                          None \<Rightarrow> ''No error message available''
                        | Some m \<Rightarrow> if m = [] then ''No error message available'' else m)),
                failed_stack = join_nl (take 3 (split_nl stackTrace)),
                failed_location =
                  (case location (test data) of
                     None \<Rightarrow> ''Unknown location''
                   | Some l \<Rightarrow> loc_file l @ '':'' @ show_nat (loc_line l))\<rparr>
         in (status r = Failed \<longrightarrow>
               processEntry st data =
                 Inr (st\<lparr>testResults := (testResults st)\<lparr>failed := failed (testResults st) + 1\<rparr>,
                         failedTests := failedTests st @ [detail]\<rparr>)) \<and>
            (status r = Skipped \<longrightarrow>
               processEntry st data =
                 Inr (st\<lparr>testResults :=
                           (testResults st)\<lparr>skipped := skipped (testResults st) + 1\<rparr>\<rparr>)) \<and>
            (status r = TimedOut \<longrightarrow>
               processEntry st data =
                 Inr (st\<lparr>testResults :=
                           (testResults st)\<lparr>timedout := timedout (testResults st) + 1\<rparr>,
                         failedTests := failedTests st @ [detail]\<rparr>)) \<and>
            prefix (failed_stack detail) stackTrace \<and>
            length (split_nl (failed_stack detail)) \<le> 3"
proof -
  have lines: "prefix (join_nl (take 3 (split_nl s))) s"
      "length (split_nl (join_nl (take 3 (split_nl s)))) \<le> 3" for s
    using first_lines_prefix [of 3 s] first_lines_count [of 2 s]
    by (simp_all add: numeral_3_eq_3)
  show ?thesis
    using assms lines
    by (auto simp: processEntry_def captureFailedTest_def or_default_def Let_def
        split: option.splits)
qed

lemma processEntry_last_not_passed_example:
  "processEntry sample_reporter
     \<lparr>test = sample_test ''t1'', results = sample_attempts [Passed, Failed]\<rparr>
   = Inr (sample_reporter
       \<lparr>testResults := \<lparr>passed = 0, failed = 1, skipped = 0, flaky = 0, timedout = 0\<rparr>,
        failedTests :=
          [\<lparr>failed_title = ''checkout t1'', failed_error = ''expected 200, received 500'',
            failed_stack = ''Error: expected'' @ [line_feed] @ ''  at a'' @ [line_feed] @ ''  at b'',
            failed_location = ''tests/checkout.spec.ts:42''\<rparr>]\<rparr>) \<and>
   processEntry sample_reporter
     \<lparr>test = sample_test ''t2'', results = sample_attempts [Failed, Skipped]\<rparr>
   = Inr (sample_reporter
       \<lparr>testResults := \<lparr>passed = 0, failed = 0, skipped = 1, flaky = 0, timedout = 0\<rparr>\<rparr>) \<and>
   processEntry sample_reporter
     \<lparr>test = (sample_test ''t3'')\<lparr>location := None\<rparr>,
      results = [\<lparr>result = \<lparr>status = TimedOut, retry = 0, error = None\<rparr>, attempt_retry = 0\<rparr>]\<rparr>
   = Inr (sample_reporter
       \<lparr>testResults := \<lparr>passed = 0, failed = 0, skipped = 0, flaky = 0, timedout = 1\<rparr>,
        failedTests :=
          [\<lparr>failed_title = ''checkout t3'', failed_error = ''No error message available'',
            failed_stack = [], failed_location = ''Unknown location''\<rparr>]\<rparr>)"
proof -
  have a1: "results \<lparr>test = sample_test ''t1'', results = sample_attempts [Passed, Failed]\<rparr>
            = sample_attempts [Passed] @ [\<lparr>result = sample_result Failed 1, attempt_retry = 1\<rparr>]"
    by (simp add: sample_attempts_def enumerate_eq_zip upt_rec)
  have a2: "results \<lparr>test = sample_test ''t2'', results = sample_attempts [Failed, Skipped]\<rparr>
            = sample_attempts [Failed] @ [\<lparr>result = sample_result Skipped 1, attempt_retry = 1\<rparr>]"
    by (simp add: sample_attempts_def enumerate_eq_zip upt_rec)
  have a3: "results \<lparr>test = (sample_test ''t3'')\<lparr>location := None\<rparr>,
               results = [\<lparr>result = \<lparr>status = TimedOut, retry = 0, error = None\<rparr>,
                           attempt_retry = 0\<rparr>]\<rparr>
            = [] @ [\<lparr>result = \<lparr>status = TimedOut, retry = 0, error = None\<rparr>, attempt_retry = 0\<rparr>]"
    by simp
  show ?thesis
    using processEntry_last_not_passed [OF a1, of sample_reporter]
      processEntry_last_not_passed [OF a2, of sample_reporter]
      processEntry_last_not_passed [OF a3, of sample_reporter]
    by (simp add: sample_result_def sample_test_def sample_reporter_def new_reporter_def
        line_feed_def show_nat_42 Let_def)
qed

subsection \<open>The attempt store\<close>

lemma push_result_keys: "map fst (push_result k a m) = map fst m"
  by (induction m) auto

lemma push_result_present:
  "k \<in> set (map fst m) \<Longrightarrow> distinct (map fst m)
   \<Longrightarrow> \<forall>(j, e) \<in> set m. j \<noteq> k \<longrightarrow> results e \<noteq> []
   \<Longrightarrow> \<forall>(j, e) \<in> set (push_result k a m). results e \<noteq> []"
  by (induction m) (force split: if_splits)+

lemma onTestEnd_keys:
  "set (map fst (testAttempts (onTestEnd st t r)))
   = insert (test_id t) (set (map fst (testAttempts st)))"
  by (auto simp: onTestEnd_def has_def Let_def push_result_keys)

lemma onTestEnd_store_ok:
  assumes "store_ok (testAttempts st)"
  shows "store_ok (testAttempts (onTestEnd st t r))"
proof -
  let ?m = "if \<not> has (testAttempts st) (test_id t)
            then testAttempts st @ [(test_id t, \<lparr>test = t, results = []\<rparr>)]
            else testAttempts st"
  have d: "distinct (map fst ?m)"
    using assms by (auto simp: store_ok_def has_def)
  have k: "test_id t \<in> set (map fst ?m)"
    by (auto simp: has_def)
  have "\<forall>(j, e) \<in> set ?m. j \<noteq> test_id t \<longrightarrow> results e \<noteq> []"
    using assms by (auto simp: store_ok_def)
  with k d have "\<forall>(j, e) \<in> set (push_result (test_id t) \<lparr>result = r, attempt_retry = retry r\<rparr> ?m).
      results e \<noteq> []"
    by (rule push_result_present)
  with d show ?thesis
    by (simp add: store_ok_def onTestEnd_def Let_def push_result_keys)
qed

lemma run_events_store_ok:
  "store_ok (testAttempts st) \<Longrightarrow> store_ok (testAttempts (run_events st evs))"
  by (induction st evs rule: run_events.induct) (auto simp: onTestEnd_store_ok)

lemma run_events_keys:
  "set (map fst (testAttempts (run_events st evs)))
   = set (map fst (testAttempts st)) \<union> test_id ` fst ` set evs"
proof (induction st evs rule: run_events.induct)
  case (1 st)
  then show ?case by simp
next
  case (2 st t r evs)
  then show ?case by (simp add: onTestEnd_keys del: set_map)
qed

lemma processEntry_total:
  assumes "results data \<noteq> []"
  shows "\<exists>st'. processEntry st data = Inr st'
           \<and> total (testResults st')
               = total (testResults st) + (if final_status data = Interrupted then 0 else 1)"
  using assms
  by (cases "final_status data")
     (auto simp: processEntry_def captureFailedTest_def total_def final_status_def Let_def)

lemma processEntries_total:
  "\<forall>(k, d) \<in> set m. results d \<noteq> []
   \<Longrightarrow> \<exists>st'. processEntries st m = Inr st'
          \<and> total (testResults st')
              = total (testResults st)
                + length (filter (\<lambda>(k, d). final_status d \<noteq> Interrupted) m)"
proof (induction m arbitrary: st)
  case Nil
  then show ?case by simp
next
  case (Cons e m)
  obtain k d where e: "e = (k, d)" by (cases e)
  with Cons.prems have "results d \<noteq> []" by simp
  from processEntry_total [OF this, of st] obtain st1 where
    st1: "processEntry st d = Inr st1"
      "total (testResults st1)
       = total (testResults st) + (if final_status d = Interrupted then 0 else 1)"
    by blast
  from Cons.prems have "\<forall>(k, d) \<in> set m. results d \<noteq> []" by simp
  from Cons.IH [OF this, of st1] obtain st' where
    "processEntries st1 m = Inr st'"
    "total (testResults st')
     = total (testResults st1) + length (filter (\<lambda>(k, d). final_status d \<noteq> Interrupted) m)"
    by blast
  with st1 e show ?case by simp
qed

lemma push_result_handled:
  "all_handled m \<Longrightarrow> status (result a) \<noteq> Interrupted \<Longrightarrow> all_handled (push_result k a m)"
proof (induction m)
  case Nil
  then show ?case by simp
next
  case (Cons e m)
  obtain j d where e: "e = (j, d)" by (cases e)
  from Cons.prems(1) e have d: "\<forall>b \<in> set (results d). status (result b) \<noteq> Interrupted"
    and m: "all_handled m"
    by (auto simp: all_handled_def)
  from Cons.IH [OF m Cons.prems(2)] have "all_handled (push_result k a m)" .
  with d m Cons.prems(2) e show ?case
    by (auto simp: all_handled_def)
qed

lemma onTestEnd_handled:
  "all_handled (testAttempts st) \<Longrightarrow> status r \<noteq> Interrupted
   \<Longrightarrow> all_handled (testAttempts (onTestEnd st t r))"
proof -
  assume a: "all_handled (testAttempts st)" and r: "status r \<noteq> Interrupted"
  from a have "all_handled (testAttempts st @ [(test_id t, \<lparr>test = t, results = []\<rparr>)])"
    by (auto simp: all_handled_def)
  with a r show ?thesis
    by (simp add: onTestEnd_def Let_def push_result_handled)
qed

lemma run_events_handled:
  "all_handled (testAttempts st) \<Longrightarrow> \<forall>(t, r) \<in> set evs. status r \<noteq> Interrupted
   \<Longrightarrow> all_handled (testAttempts (run_events st evs))"
  by (induction st evs rule: run_events.induct) (auto simp: onTestEnd_handled)

lemma run_events_testResults: "testResults (run_events st evs) = testResults st"
  by (induction st evs rule: run_events.induct) (auto simp: onTestEnd_def Let_def)

lemma recorded_identities:
  "length (testAttempts (run_events (new_reporter url name) evs)) = card (test_id ` fst ` set evs)"
proof -
  let ?m = "testAttempts (run_events (new_reporter url name) evs)"
  have "store_ok (testAttempts (new_reporter url name))"
    by (simp add: store_ok_def new_reporter_def)
  then have "distinct (map fst ?m)"
    using run_events_store_ok store_ok_def by blast
  then have "length ?m = card (set (map fst ?m))"
    using distinct_card [of "map fst ?m"] by simp
  also have "set (map fst ?m) = test_id ` fst ` set evs"
    using run_events_keys [of "new_reporter url name" evs] by (simp add: new_reporter_def)
  finally show ?thesis .
qed

subsection \<open>The classifier on a recorded run\<close>

text \<open>
  What \<^verbatim>\<open>onTestEnd\<close> has recorded for an identity, read from the events of the run.
\<close>

lemma map_of_push_result:
  "map_of (push_result k a m) k'
   = (if k' = k then map_option (\<lambda>d. d\<lparr>results := results d @ [a]\<rparr>) (map_of m k)
      else map_of m k')"
  by (induction m) auto

lemma map_of_onTestEnd:
  "map_of (testAttempts (onTestEnd st t r)) k
   = (if k = test_id t
      then Some (case map_of (testAttempts st) k of
                   Some d \<Rightarrow> d\<lparr>results := results d @ [\<lparr>result = r, attempt_retry = retry r\<rparr>]\<rparr>
                 | None \<Rightarrow> \<lparr>test = t, results = [\<lparr>result = r, attempt_retry = retry r\<rparr>]\<rparr>)
      else map_of (testAttempts st) k)"
proof (cases "has (testAttempts st) (test_id t)")
  case True
  then obtain d where "map_of (testAttempts st) (test_id t) = Some d"
    unfolding has_def by (metis image_set map_of_eq_None_iff not_Some_eq)
  with True show ?thesis
    by (simp add: onTestEnd_def Let_def map_of_push_result)
next
  case False
  then have "map_of (testAttempts st) (test_id t) = None"
    unfolding has_def by (simp add: map_of_eq_None_iff)
  with False show ?thesis
    by (auto simp: onTestEnd_def Let_def map_of_push_result map_add_def split: option.splits)
qed

lemma run_events_map_of:
  "map_of (testAttempts (run_events st evs)) k
   = (case map_of (testAttempts st) k of
        Some d \<Rightarrow> Some (d\<lparr>results := results d @ attempts_of k evs\<rparr>)
      | None \<Rightarrow>
          (case filter (\<lambda>(t, r). test_id t = k) evs of
             [] \<Rightarrow> None
           | e # es \<Rightarrow> Some \<lparr>test = fst e, results = attempts_of k evs\<rparr>))"
proof (induction st evs rule: run_events.induct)
  case (1 st)
  then show ?case by (simp add: attempts_of_def split: option.splits)
next
  case (2 st t r evs)
  show ?case
    by (simp add: "2.IH" map_of_onTestEnd attempts_of_def split: option.splits list.splits)
qed

lemma recorded_entry:
  assumes "(k, d) \<in> set (testAttempts (run_events (new_reporter url name) evs))"
  shows "results d = attempts_of k evs \<and> results d \<noteq> []
         \<and> test d = fst (hd (filter (\<lambda>(t, r). test_id t = k) evs))"
proof -
  let ?m = "testAttempts (run_events (new_reporter url name) evs)"
  have "store_ok (testAttempts (new_reporter url name))"
    by (simp add: store_ok_def new_reporter_def)
  then have "distinct (map fst ?m)"
    using run_events_store_ok store_ok_def by blast
  with assms have "map_of ?m k = Some d" by simp
  then show ?thesis
    by (auto simp: run_events_map_of new_reporter_def attempts_of_def split: list.splits)
qed

lemma run_events_lists:
  "flakyTests (run_events st evs) = flakyTests st"
  "failedTests (run_events st evs) = failedTests st"
  by (induction st evs rule: run_events.induct) (auto simp: onTestEnd_def Let_def)

lemma recorded_distinct:
  "distinct (map fst (testAttempts (run_events (new_reporter url name) evs)))"
proof -
  have "store_ok (testAttempts (new_reporter url name))"
    by (simp add: store_ok_def new_reporter_def)
  then show ?thesis
    using run_events_store_ok store_ok_def by blast
qed

lemma recorded_keys:
  "set (map fst (testAttempts (run_events (new_reporter url name) evs))) = test_id ` fst ` set evs"
  using run_events_keys [of "new_reporter url name" evs] by (simp add: new_reporter_def)

lemma captureFailedTest_detail:
  "captureFailedTest st (test d) (result (last (results d)))
   = st\<lparr>failedTests := failedTests st @ [failure_detail d]\<rparr>"
  by (simp add: captureFailedTest_def failure_detail_def stack_trace_of_def or_default_def
      Let_def split: option.splits)

lemma processEntry_effect:
  assumes "results d \<noteq> []"
  shows "\<exists>st'. processEntry st d = Inr st'
     \<and> passed (testResults st') = passed (testResults st)
         + (if final_status d = Passed \<and> \<not> (had_failure d \<and> 1 < length (results d)) then 1 else 0)
     \<and> flaky (testResults st') = flaky (testResults st)
         + (if final_status d = Passed \<and> had_failure d \<and> 1 < length (results d) then 1 else 0)
     \<and> failed (testResults st') = failed (testResults st)
         + (if final_status d = Failed then 1 else 0)
     \<and> skipped (testResults st') = skipped (testResults st)
         + (if final_status d = Skipped then 1 else 0)
     \<and> timedout (testResults st') = timedout (testResults st)
         + (if final_status d = TimedOut then 1 else 0)
     \<and> flakyTests st' = flakyTests st
         @ (if final_status d = Passed \<and> had_failure d \<and> 1 < length (results d)
            then [\<lparr>flaky_title = title (test d), attempts = length (results d)\<rparr>] else [])
     \<and> failedTests st' = failedTests st
         @ (if final_status d = Failed \<or> final_status d = TimedOut then [failure_detail d] else [])"
  using assms
  by (cases "final_status d")
     (auto simp: processEntry_def captureFailedTest_detail final_status_def had_failure_def
        list_ex_iff Let_def)

lemma processEntries_effect:
  assumes "\<forall>(k, d) \<in> set m. results d \<noteq> []"
  shows "\<exists>st'. processEntries st m = Inr st'
     \<and> passed (testResults st') = passed (testResults st)
         + length (filter (\<lambda>d. final_status d = Passed
                               \<and> \<not> (had_failure d \<and> 1 < length (results d))) (map snd m))
     \<and> flaky (testResults st') = flaky (testResults st)
         + length (filter (\<lambda>d. final_status d = Passed
                               \<and> had_failure d \<and> 1 < length (results d)) (map snd m))
     \<and> failed (testResults st') = failed (testResults st)
         + length (filter (\<lambda>d. final_status d = Failed) (map snd m))
     \<and> skipped (testResults st') = skipped (testResults st)
         + length (filter (\<lambda>d. final_status d = Skipped) (map snd m))
     \<and> timedout (testResults st') = timedout (testResults st)
         + length (filter (\<lambda>d. final_status d = TimedOut) (map snd m))
     \<and> flakyTests st' = flakyTests st
         @ map (\<lambda>d. \<lparr>flaky_title = title (test d), attempts = length (results d)\<rparr>)
             (filter (\<lambda>d. final_status d = Passed
                           \<and> had_failure d \<and> 1 < length (results d)) (map snd m))
     \<and> failedTests st' = failedTests st
         @ map failure_detail
             (filter (\<lambda>d. final_status d = Failed \<or> final_status d = TimedOut) (map snd m))"
  using assms
proof (induction m arbitrary: st)
  case Nil
  then show ?case by simp
next
  case (Cons e m)
  obtain k d where e: "e = (k, d)" by (cases e)
  with Cons.prems have ne: "results d \<noteq> []" and rest: "\<forall>(k, d) \<in> set m. results d \<noteq> []"
    by simp_all
  from processEntry_effect [OF ne, of st] obtain st1 where
    st1: "processEntry st d = Inr st1" and
    eff: "passed (testResults st1) = passed (testResults st)
         + (if final_status d = Passed \<and> \<not> (had_failure d \<and> 1 < length (results d)) then 1 else 0)"
     "flaky (testResults st1) = flaky (testResults st)
         + (if final_status d = Passed \<and> had_failure d \<and> 1 < length (results d) then 1 else 0)"
     "failed (testResults st1) = failed (testResults st)
         + (if final_status d = Failed then 1 else 0)"
     "skipped (testResults st1) = skipped (testResults st)
         + (if final_status d = Skipped then 1 else 0)"
     "timedout (testResults st1) = timedout (testResults st)
         + (if final_status d = TimedOut then 1 else 0)"
     "flakyTests st1 = flakyTests st
         @ (if final_status d = Passed \<and> had_failure d \<and> 1 < length (results d)
            then [\<lparr>flaky_title = title (test d), attempts = length (results d)\<rparr>] else [])"
     "failedTests st1 = failedTests st
         @ (if final_status d = Failed \<or> final_status d = TimedOut then [failure_detail d] else [])"
    by blast
  from Cons.IH [OF rest, of st1] obtain st' where
    st': "processEntries st1 m = Inr st'" and
    ih: "passed (testResults st') = passed (testResults st1)
         + length (filter (\<lambda>d. final_status d = Passed
                               \<and> \<not> (had_failure d \<and> 1 < length (results d))) (map snd m))"
     "flaky (testResults st') = flaky (testResults st1)
         + length (filter (\<lambda>d. final_status d = Passed
                               \<and> had_failure d \<and> 1 < length (results d)) (map snd m))"
     "failed (testResults st') = failed (testResults st1)
         + length (filter (\<lambda>d. final_status d = Failed) (map snd m))"
     "skipped (testResults st') = skipped (testResults st1)
         + length (filter (\<lambda>d. final_status d = Skipped) (map snd m))"
     "timedout (testResults st') = timedout (testResults st1)
         + length (filter (\<lambda>d. final_status d = TimedOut) (map snd m))"
     "flakyTests st' = flakyTests st1
         @ map (\<lambda>d. \<lparr>flaky_title = title (test d), attempts = length (results d)\<rparr>)
             (filter (\<lambda>d. final_status d = Passed
                           \<and> had_failure d \<and> 1 < length (results d)) (map snd m))"
     "failedTests st' = failedTests st1
         @ map failure_detail
             (filter (\<lambda>d. final_status d = Failed \<or> final_status d = TimedOut) (map snd m))"
    by blast
  have "processEntries st (e # m) = Inr st'"
    by (simp add: e st1 st')
  then show ?case
    using eff ih by (simp add: e)
qed

text \<open>
  Claim C1. At the end of a run the classifier goes through the tests that \<^verbatim>\<open>onTestEnd\<close>
  recorded, one entry per identity, holding the attempts of that identity in order (never
  none). Of the tests whose last recorded attempt passed it assigns Flaky exactly to those
  with some failed or timed-out attempt and more than one attempt: the flaky count is their
  number and the flaky list holds, in the order of the store, the title and the number of
  attempts of each. It assigns Passed to all the others: the passed count is their number.
\<close>

theorem classifier_last_passed:
  fixes url name evs
  defines "st \<equiv> run_events (new_reporter url name) evs"
  shows "\<exists>st'. processTestResults st = Inr st' \<and>
     flaky (testResults st')
       = length (filter (\<lambda>d. final_status d = Passed \<and> had_failure d \<and> 1 < length (results d))
           (map snd (testAttempts st))) \<and>
     flakyTests st'
       = map (\<lambda>d. \<lparr>flaky_title = title (test d), attempts = length (results d)\<rparr>)
           (filter (\<lambda>d. final_status d = Passed \<and> had_failure d \<and> 1 < length (results d))
              (map snd (testAttempts st))) \<and>
     passed (testResults st')
       = length (filter (\<lambda>d. final_status d = Passed
                            \<and> \<not> (had_failure d \<and> 1 < length (results d)))
           (map snd (testAttempts st))) \<and>
     distinct (map fst (testAttempts st)) \<and>
     set (map fst (testAttempts st)) = test_id ` fst ` set evs \<and>
     (\<forall>(k, d) \<in> set (testAttempts st).
        results d = attempts_of k evs \<and> results d \<noteq> []
        \<and> test d = fst (hd (filter (\<lambda>(t, r). test_id t = k) evs)))"
proof -
  have entries: "\<forall>(k, d) \<in> set (testAttempts st).
        results d = attempts_of k evs \<and> results d \<noteq> []
        \<and> test d = fst (hd (filter (\<lambda>(t, r). test_id t = k) evs))"
    unfolding st_def using recorded_entry by blast
  then have "\<forall>(k, d) \<in> set (testAttempts st). results d \<noteq> []"
    by blast
  from processEntries_effect [OF this, of st] obtain st' where
    "processTestResults st = Inr st'"
    "flaky (testResults st') = flaky (testResults st)
       + length (filter (\<lambda>d. final_status d = Passed \<and> had_failure d \<and> 1 < length (results d))
           (map snd (testAttempts st)))"
    "flakyTests st' = flakyTests st
       @ map (\<lambda>d. \<lparr>flaky_title = title (test d), attempts = length (results d)\<rparr>)
           (filter (\<lambda>d. final_status d = Passed \<and> had_failure d \<and> 1 < length (results d))
              (map snd (testAttempts st)))"
    "passed (testResults st') = passed (testResults st)
       + length (filter (\<lambda>d. final_status d = Passed
                            \<and> \<not> (had_failure d \<and> 1 < length (results d)))
           (map snd (testAttempts st)))"
    unfolding processTestResults_def by blast
  moreover have "testResults st = \<lparr>passed = 0, failed = 0, skipped = 0, flaky = 0, timedout = 0\<rparr>"
      "flakyTests st = []"
    unfolding st_def
    by (simp_all add: run_events_testResults run_events_lists new_reporter_def)
  ultimately show ?thesis
    using entries recorded_distinct [of url name evs] recorded_keys [of url name evs]
    unfolding st_def by auto
qed

theorem classifier_last_passed_witness:
  "\<exists>st'. processTestResults
            (run_events (new_reporter (Some ''https://example.test/hook'') ''demo'') sample_run)
          = Inr st' \<and>
     flaky (testResults st') = 1 \<and>
     flakyTests st' = [\<lparr>flaky_title = ''checkout d'', attempts = 2\<rparr>] \<and>
     passed (testResults st') = 3 \<and>
     map fst (testAttempts
       (run_events (new_reporter (Some ''https://example.test/hook'') ''demo'') sample_run))
       = [''a'', ''b'', ''d'', ''c'', ''e'', ''f'', ''g'']"
proof -
  let ?st = "run_events (new_reporter (Some ''https://example.test/hook'') ''demo'') sample_run"
  have n: "length (filter (\<lambda>d. final_status d = Passed \<and> had_failure d \<and> 1 < length (results d))
             (map snd (testAttempts ?st))) = 1"
    by code_simp
  have l: "map (\<lambda>d. \<lparr>flaky_title = title (test d), attempts = length (results d)\<rparr>)
             (filter (\<lambda>d. final_status d = Passed \<and> had_failure d \<and> 1 < length (results d))
                (map snd (testAttempts ?st)))
           = [\<lparr>flaky_title = ''checkout d'', attempts = 2\<rparr>]"
    by code_simp
  have p: "length (filter (\<lambda>d. final_status d = Passed
                              \<and> \<not> (had_failure d \<and> 1 < length (results d)))
             (map snd (testAttempts ?st))) = 3"
    by code_simp
  have k: "map fst (testAttempts ?st) = [''a'', ''b'', ''d'', ''c'', ''e'', ''f'', ''g'']"
    by code_simp
  from classifier_last_passed
    [where url = "Some ''https://example.test/hook''" and name = "''demo''" and evs = sample_run]
  show ?thesis
    unfolding n l p k by blast
qed

text \<open>
  Claim C2. At the end of a run, of the tests that \<^verbatim>\<open>onTestEnd\<close> recorded, only the last
  recorded attempt decides the classification that is not a pass: the failed, skipped and
  timed-out counts are the numbers of tests whose last attempt failed, was skipped and timed
  out, whatever the earlier attempts were. For the failed and the timed-out tests, in the
  order of the store, the same detail of the last attempt is recorded: the title; the error
  message, or a fixed placeholder when there is none; the first three lines of the stack
  trace joined by line feeds (a prefix of the trace, of at most three lines); and the
  location as file, colon, line, or a fixed placeholder when the test has none.
\<close>

theorem classifier_last_not_passed:
  fixes url name evs
  defines "st \<equiv> run_events (new_reporter url name) evs"
  shows "\<exists>st'. processTestResults st = Inr st' \<and>
     failed (testResults st')
       = length (filter (\<lambda>d. final_status d = Failed) (map snd (testAttempts st))) \<and>
     skipped (testResults st')
       = length (filter (\<lambda>d. final_status d = Skipped) (map snd (testAttempts st))) \<and>
     timedout (testResults st')
       = length (filter (\<lambda>d. final_status d = TimedOut) (map snd (testAttempts st))) \<and>
     failedTests st'
       = map failure_detail
           (filter (\<lambda>d. final_status d = Failed \<or> final_status d = TimedOut)
              (map snd (testAttempts st))) \<and>
     prefix (failed_stack (failure_detail d)) (stack_trace_of (result (last (results d)))) \<and>
     length (split_nl (failed_stack (failure_detail d))) \<le> 3 \<and>
     distinct (map fst (testAttempts st)) \<and>
     set (map fst (testAttempts st)) = test_id ` fst ` set evs \<and>
     (\<forall>(k, d) \<in> set (testAttempts st).
        results d = attempts_of k evs \<and> results d \<noteq> []
        \<and> test d = fst (hd (filter (\<lambda>(t, r). test_id t = k) evs)))"
proof -
  have entries: "\<forall>(k, d) \<in> set (testAttempts st).
        results d = attempts_of k evs \<and> results d \<noteq> []
        \<and> test d = fst (hd (filter (\<lambda>(t, r). test_id t = k) evs))"
    unfolding st_def using recorded_entry by blast
  then have "\<forall>(k, d) \<in> set (testAttempts st). results d \<noteq> []"
    by blast
  from processEntries_effect [OF this, of st] obtain st' where
    "processTestResults st = Inr st'"
    "failed (testResults st') = failed (testResults st)
       + length (filter (\<lambda>d. final_status d = Failed) (map snd (testAttempts st)))"
    "skipped (testResults st') = skipped (testResults st)
       + length (filter (\<lambda>d. final_status d = Skipped) (map snd (testAttempts st)))"
    "timedout (testResults st') = timedout (testResults st)
       + length (filter (\<lambda>d. final_status d = TimedOut) (map snd (testAttempts st)))"
    "failedTests st' = failedTests st
       @ map failure_detail
           (filter (\<lambda>d. final_status d = Failed \<or> final_status d = TimedOut)
              (map snd (testAttempts st)))"
    unfolding processTestResults_def by blast
  moreover have "testResults st = \<lparr>passed = 0, failed = 0, skipped = 0, flaky = 0, timedout = 0\<rparr>"
      "failedTests st = []"
    unfolding st_def
    by (simp_all add: run_events_testResults run_events_lists new_reporter_def)
  moreover have "prefix (failed_stack (failure_detail d))
      (stack_trace_of (result (last (results d))))"
    using first_lines_prefix [of 3 "stack_trace_of (result (last (results d)))"]
    by (simp add: failure_detail_def Let_def)
  moreover have "length (split_nl (failed_stack (failure_detail d))) \<le> 3"
    using first_lines_count [of 2 "stack_trace_of (result (last (results d)))"]
    by (simp add: failure_detail_def Let_def numeral_3_eq_3)
  ultimately show ?thesis
    using entries recorded_distinct [of url name evs] recorded_keys [of url name evs]
    unfolding st_def by auto
qed

theorem classifier_last_not_passed_witness:
  "\<exists>st'. processTestResults
            (run_events (new_reporter (Some ''https://example.test/hook'') ''demo'') sample_run)
          = Inr st' \<and>
     failed (testResults st') = 1 \<and>
     skipped (testResults st') = 1 \<and>
     timedout (testResults st') = 1 \<and>
     failedTests st'
       = [\<lparr>failed_title = ''checkout e'', failed_error = ''expected 200, received 500'',
           failed_stack = ''Error: expected'' @ [line_feed] @ ''  at a'' @ [line_feed] @ ''  at b'',
           failed_location = ''tests/checkout.spec.ts:42''\<rparr>,
          \<lparr>failed_title = ''checkout g'', failed_error = ''expected 200, received 500'',
           failed_stack = ''Error: expected'' @ [line_feed] @ ''  at a'' @ [line_feed] @ ''  at b'',
           failed_location = ''tests/checkout.spec.ts:42''\<rparr>]"
proof -
  let ?st = "run_events (new_reporter (Some ''https://example.test/hook'') ''demo'') sample_run"
  have f: "length (filter (\<lambda>d. final_status d = Failed) (map snd (testAttempts ?st))) = 1"
    by code_simp
  have s: "length (filter (\<lambda>d. final_status d = Skipped) (map snd (testAttempts ?st))) = 1"
    by code_simp
  have t: "length (filter (\<lambda>d. final_status d = TimedOut) (map snd (testAttempts ?st))) = 1"
    by code_simp
  have l: "map failure_detail
             (filter (\<lambda>d. final_status d = Failed \<or> final_status d = TimedOut)
                (map snd (testAttempts ?st)))
       = [\<lparr>failed_title = ''checkout e'', failed_error = ''expected 200, received 500'',
           failed_stack = ''Error: expected'' @ [line_feed] @ ''  at a'' @ [line_feed] @ ''  at b'',
           failed_location = ''tests/checkout.spec.ts:42''\<rparr>,
          \<lparr>failed_title = ''checkout g'', failed_error = ''expected 200, received 500'',
           failed_stack = ''Error: expected'' @ [line_feed] @ ''  at a'' @ [line_feed] @ ''  at b'',
           failed_location = ''tests/checkout.spec.ts:42''\<rparr>]"
    by code_simp
  from classifier_last_not_passed
    [where url = "Some ''https://example.test/hook''" and name = "''demo''" and evs = sample_run]
  show ?thesis
    unfolding f s t l by blast
qed

subsection \<open>The sum of the counts\<close>

text \<open>
  Classification never fails on a store that \<^verbatim>\<open>onTestEnd\<close> built, and the five counts add
  up to the number of identities whose last attempt is not interrupted.
\<close>

lemma classified_total:
  "\<exists>st'. processTestResults (run_events (new_reporter url name) evs) = Inr st'
     \<and> total (testResults st')
         = length (filter (\<lambda>(k, d). final_status d \<noteq> Interrupted)
             (testAttempts (run_events (new_reporter url name) evs)))"
proof -
  let ?st = "run_events (new_reporter url name) evs"
  have "store_ok (testAttempts (new_reporter url name))"
    by (simp add: store_ok_def new_reporter_def)
  then have "\<forall>(k, d) \<in> set (testAttempts ?st). results d \<noteq> []"
    using run_events_store_ok store_ok_def by blast
  from processEntries_total [OF this, of ?st]
  show ?thesis
    by (simp add: processTestResults_def run_events_testResults total_def new_reporter_def)
qed

text \<open>
  With no interrupted attempt among the events, the five counts add up to the number of
  distinct identities.
\<close>

lemma counts_cover_handled_statuses:
  assumes "\<forall>(t, r) \<in> set evs. status r \<noteq> Interrupted"
  shows "\<exists>st'. processTestResults (run_events (new_reporter url name) evs) = Inr st'
           \<and> total (testResults st') = card (test_id ` fst ` set evs)"
proof -
  let ?m = "testAttempts (run_events (new_reporter url name) evs)"
  have "all_handled (testAttempts (new_reporter url name))"
    by (simp add: all_handled_def new_reporter_def)
  then have h: "all_handled ?m"
    using assms by (rule run_events_handled)
  have "store_ok (testAttempts (new_reporter url name))"
    by (simp add: store_ok_def new_reporter_def)
  then have ne: "\<forall>(k, d) \<in> set ?m. results d \<noteq> []"
    using run_events_store_ok store_ok_def by blast
  have "\<forall>(k, d) \<in> set ?m. final_status d \<noteq> Interrupted"
  proof (clarify)
    fix k d
    assume kd: "(k, d) \<in> set ?m" and i: "final_status d = Interrupted"
    from ne kd have "last (results d) \<in> set (results d)" by auto
    with h kd have "status (result (last (results d))) \<noteq> Interrupted"
      unfolding all_handled_def by blast
    with i show False by (simp add: final_status_def)
  qed
  then have "filter (\<lambda>(k, d). final_status d \<noteq> Interrupted) ?m = ?m"
    by (auto simp: filter_id_conv)
  with classified_total [of url name evs] recorded_identities [of url name evs]
  show ?thesis by simp
qed

text \<open>
  Claim C5. After classification the five counts should add up to the number of distinct
  test identities with a recorded attempt. The classifier counts a test only when the
  status of its last attempt is one of the four that its comparisons name. A run in which
  the only test ends interrupted is classified without error, records one identity and
  leaves every count at zero.
\<close>

theorem interrupted_test_not_counted:
  "processTestResults (run_events sample_reporter [(sample_test ''t1'', sample_result Interrupted 0)])
     = Inr (run_events sample_reporter [(sample_test ''t1'', sample_result Interrupted 0)]) \<and>
   total (testResults
     (run_events sample_reporter [(sample_test ''t1'', sample_result Interrupted 0)])) = 0 \<and>
   card (test_id ` fst ` set [(sample_test ''t1'', sample_result Interrupted 0)]) = 1"
  by (simp add: sample_reporter_def new_reporter_def onTestEnd_def has_def
      processTestResults_def processEntry_def sample_test_def sample_result_def total_def
      Let_def)

theorem interrupted_test_not_counted_witness:
  "total (testResults
     (run_events sample_reporter [(sample_test ''t1'', sample_result Interrupted 0)]))
   \<noteq> card (test_id ` fst ` set [(sample_test ''t1'', sample_result Interrupted 0)])"
  using interrupted_test_not_counted by simp

subsection \<open>A whole run\<close>

text \<open>
  Five tests: three pass at once, one fails and then passes, one fails twice. Three are
  counted as passed, one as flaky with two attempts, one as failed, and the overall status
  is FAILED.
\<close>

lemma whole_run_scenario:
  "(case processTestResults
          (run_events sample_reporter
             [(sample_test ''a'', sample_result Passed 0),
              (sample_test ''b'', sample_result Passed 0),
              (sample_test ''d'', sample_result Failed 0),
              (sample_test ''c'', sample_result Passed 0),
              (sample_test ''e'', sample_result Failed 0),
              (sample_test ''d'', sample_result Passed 1),
              (sample_test ''e'', sample_result Failed 1)]) of
      Inl e \<Rightarrow> False
    | Inr st \<Rightarrow>
        testResults st = \<lparr>passed = 3, failed = 1, skipped = 0, flaky = 1, timedout = 0\<rparr>
        \<and> map flaky_title (flakyTests st) = [''checkout d'']
        \<and> map attempts (flakyTests st) = [2]
        \<and> map failed_title (failedTests st) = [''checkout e'']
        \<and> status_text (getOverallStatus st) = ''FAILED'')"
  by code_simp

section \<open>The delivery client: properties\<close>

subsection \<open>One turn of the loop\<close>

lemma retryable_iff_thrown: "retryable r \<longleftrightarrow> isl (axios_post r)"
  by (cases r) (auto simp: retryable_def axios_post_def validateStatus_def)

lemma sendLoop_past: "maxRetries < attempt \<Longrightarrow> sendLoop net maxRetries attempt = (GaveUp, [])"
  by (simp add: sendLoop.simps)

lemma sendLoop_success:
  "attempt \<le> maxRetries \<Longrightarrow> net attempt = HttpStatus code \<Longrightarrow> 200 \<le> code \<Longrightarrow> code < 300
   \<Longrightarrow> sendLoop net maxRetries attempt = (SentOk, [Send attempt])"
  by (simp add: sendLoop.simps [of net maxRetries attempt] axios_post_def validateStatus_def)

lemma sendLoop_client_error:
  "attempt \<le> maxRetries \<Longrightarrow> net attempt = HttpStatus code \<Longrightarrow> 400 \<le> code \<Longrightarrow> code < 500
   \<Longrightarrow> sendLoop net maxRetries attempt = (ClientError, [Send attempt])"
  by (simp add: sendLoop.simps [of net maxRetries attempt] axios_post_def validateStatus_def)

lemma sendLoop_other_response:
  "attempt \<le> maxRetries \<Longrightarrow> net attempt = HttpStatus code \<Longrightarrow> code < 400
   \<Longrightarrow> \<not> (200 \<le> code \<and> code < 300)
   \<Longrightarrow> sendLoop net maxRetries attempt
       = apsnd ((#) (Send attempt)) (sendLoop net maxRetries (attempt + 1))"
  by (auto simp: sendLoop.simps [of net maxRetries attempt] axios_post_def validateStatus_def)

lemma sendLoop_retry:
  "attempt < maxRetries \<Longrightarrow> retryable (net attempt)
   \<Longrightarrow> sendLoop net maxRetries attempt
       = apsnd ((@) [Send attempt, Sleep (waitTime attempt)])
           (sendLoop net maxRetries (attempt + 1))"
  by (cases "net attempt")
     (auto simp: sendLoop.simps [of net maxRetries attempt] axios_post_def validateStatus_def
        retryable_def)

lemma sendLoop_last_retry:
  "retryable (net maxRetries) \<Longrightarrow> sendLoop net maxRetries maxRetries = (GaveUp, [Send maxRetries])"
  by (cases "net maxRetries")
     (auto simp: sendLoop.simps [of net maxRetries maxRetries] sendLoop_past axios_post_def
        validateStatus_def retryable_def)

lemma sendLoop_starts_with_send:
  "attempt \<le> maxRetries \<Longrightarrow> \<exists>rest. snd (sendLoop net maxRetries attempt) = Send attempt # rest"
  by (auto simp: sendLoop.simps [of net maxRetries attempt] split: sum.splits)

lemma sendLoop_reach:
  "Send a \<in> set (snd (sendLoop net maxRetries attempt))
   \<Longrightarrow> attempt \<le> a \<and> a \<le> maxRetries
       \<and> fst (sendLoop net maxRetries attempt) = fst (sendLoop net maxRetries a)
       \<and> (\<exists>before. snd (sendLoop net maxRetries attempt)
             = before @ snd (sendLoop net maxRetries a))"
proof (induction net maxRetries attempt rule: sendLoop.induct)
  case (1 net maxRetries attempt)
  have le: "attempt \<le> maxRetries"
    using "1.prems" by (cases "attempt \<le> maxRetries") (simp_all add: sendLoop_past)
  show ?case
  proof (cases "a = attempt")
    case True
    with le show ?thesis by simp
  next
    case False
    show ?thesis
    proof (cases "axios_post (net attempt)")
      case (Inr code)
      with "1.prems" False le
      have cont: "\<not> (200 \<le> code \<and> code < 300)" "\<not> (400 \<le> code \<and> code < 500)"
        and unf: "sendLoop net maxRetries attempt
                  = apsnd ((#) (Send attempt)) (sendLoop net maxRetries (attempt + 1))"
        by (auto simp: sendLoop.simps [of net maxRetries attempt] split: if_splits)
      from "1.prems" False unf
      have "Send a \<in> set (snd (sendLoop net maxRetries (attempt + 1)))" by simp
      from "1.IH"(3) [OF le Inr cont this] unf show ?thesis by auto
    next
      case (Inl err)
      show ?thesis
      proof (cases "attempt < maxRetries")
        case True
        with Inl le
        have unf: "sendLoop net maxRetries attempt
                   = apsnd ((@) [Send attempt, Sleep (waitTime attempt)])
                       (sendLoop net maxRetries (attempt + 1))"
          by (simp add: sendLoop.simps [of net maxRetries attempt])
        from "1.prems" False unf
        have "Send a \<in> set (snd (sendLoop net maxRetries (attempt + 1)))" by simp
        from "1.IH"(1) [OF le Inl True this] unf show ?thesis by auto
      next
        case last: False
        with le have eq: "attempt = maxRetries" by simp
        with Inl have "retryable (net maxRetries)" by (simp add: retryable_iff_thrown)
        with eq have unf: "sendLoop net maxRetries attempt = (GaveUp, [Send attempt])"
          by (simp add: sendLoop_last_retry)
        with "1.prems" False show ?thesis by simp
      qed
    qed
  qed
qed


lemma sendLoop_all_retryable:
  "attempt \<le> maxRetries \<Longrightarrow> (\<forall>a. attempt \<le> a \<and> a \<le> maxRetries \<longrightarrow> retryable (net a))
   \<Longrightarrow> sendLoop net maxRetries attempt
       = (GaveUp, concat (map (\<lambda>a. [Send a, Sleep (waitTime a)]) [attempt..<maxRetries])
                  @ [Send maxRetries])"
proof (induction "maxRetries - attempt" arbitrary: attempt)
  case 0
  then have "attempt = maxRetries" by simp
  with "0.prems" show ?case by (simp add: sendLoop_last_retry)
next
  case (Suc d)
  then have lt: "attempt < maxRetries" by simp
  with Suc.prems have r: "retryable (net attempt)" by simp
  have "sendLoop net maxRetries (attempt + 1)
        = (GaveUp, concat (map (\<lambda>a. [Send a, Sleep (waitTime a)]) [attempt + 1..<maxRetries])
                   @ [Send maxRetries])"
    using Suc.hyps(2) Suc.prems lt by (intro Suc.hyps(1)) auto
  with lt r show ?case
    by (simp add: sendLoop_retry upt_conv_Cons)
qed

lemma sendLoop_all_other:
  "attempt \<le> maxRetries + 1
   \<Longrightarrow> (\<forall>a. attempt \<le> a \<and> a \<le> maxRetries \<longrightarrow>
          (\<exists>code. net a = HttpStatus code \<and> code < 400
             \<and> \<not> (200 \<le> code \<and> code < 300)))
   \<Longrightarrow> sendLoop net maxRetries attempt = (GaveUp, map Send [attempt..<maxRetries + 1])"
proof (induction "maxRetries + 1 - attempt" arbitrary: attempt)
  case 0
  then show ?case by (simp add: sendLoop_past)
next
  case (Suc d)
  then have le: "attempt \<le> maxRetries" by simp
  with Suc.prems obtain code where st: "net attempt = HttpStatus code" "code < 400"
      "\<not> (200 \<le> code \<and> code < 300)"
    by blast
  have "sendLoop net maxRetries (attempt + 1) = (GaveUp, map Send [attempt + 1..<maxRetries + 1])"
    using Suc.hyps(2) Suc.prems le by (intro Suc.hyps(1)) auto
  with le st show ?case
    by (simp add: sendLoop_other_response upt_conv_Cons)
qed

lemma sends_of_retry_trace:
  "filter is_send (concat (map (\<lambda>a. [Send a, Sleep (waitTime a)]) [k..<m])) = map Send [k..<m]"
  by (induction m) auto

subsection \<open>Retries and waits\<close>

text \<open>
  Claim C3. In a delivery with a budget of \<open>maxRetries\<close> attempts, a retryable failure (a
  status of 500 or more, or a failure of the transport) of an attempt \<open>a < maxRetries\<close> is
  followed by a wait of \<open>min (1000 * 2^(a-1)) 5000\<close> milliseconds and then by attempt
  \<open>a + 1\<close>; a 2xx response to any attempt ends the delivery, as delivered, with that
  request as the last action; when every attempt fails retryably the delivery is abandoned
  after exactly \<open>maxRetries\<close> requests. The responses 500, 500, 200 with three attempts
  give three requests with waits of 1000 and 2000 milliseconds and a delivered card; three
  timeouts give three requests and an abandoned delivery.
\<close>

theorem delivery_retry_backoff:
  "(Send a \<in> set (snd (sendWebhookWithRetry net messageCard maxRetries)) \<and> retryable (net messageCard a)
      \<and> a < maxRetries \<longrightarrow>
      (\<exists>before after. snd (sendWebhookWithRetry net messageCard maxRetries)
          = before @ [Send a, Sleep (min (1000 * 2 ^ (a - 1)) 5000), Send (a + 1)] @ after)) \<and>
   (Send a \<in> set (snd (sendWebhookWithRetry net messageCard maxRetries)) \<and> net messageCard a = HttpStatus s
      \<and> 200 \<le> s \<and> s < 300 \<longrightarrow>
      outcome_of (fst (sendWebhookWithRetry net messageCard maxRetries)) = Delivered \<and>
      (\<exists>before. snd (sendWebhookWithRetry net messageCard maxRetries) = before @ [Send a])) \<and>
   ((\<forall>k. 1 \<le> k \<and> k \<le> maxRetries \<longrightarrow> retryable (net messageCard k)) \<longrightarrow>
      outcome_of (fst (sendWebhookWithRetry net messageCard maxRetries)) = Abandoned \<and>
      filter is_send (snd (sendWebhookWithRetry net messageCard maxRetries))
        = map Send [1..<maxRetries + 1]) \<and>
   (net messageCard 1 = HttpStatus 500 \<and> net messageCard 2 = HttpStatus 500 \<and> net messageCard 3 = HttpStatus 200 \<longrightarrow>
      sendWebhookWithRetry net messageCard 3
        = (SentOk, [Send 1, Sleep 1000, Send 2, Sleep 2000, Send 3])) \<and>
   (net messageCard 1 = TransportFailure ECONNABORTED \<and> net messageCard 2 = TransportFailure ECONNABORTED
      \<and> net messageCard 3 = TransportFailure ECONNABORTED \<longrightarrow>
      sendWebhookWithRetry net messageCard 3
        = (GaveUp, [Send 1, Sleep 1000, Send 2, Sleep 2000, Send 3]))"
proof (intro conjI impI; (elim conjE)?)
  let ?run = "sendWebhookWithRetry net messageCard maxRetries"
  {
    assume sent: "Send a \<in> set (snd ?run)" and r: "retryable (net messageCard a)" and lt: "a < maxRetries"
    from sent obtain before where b: "snd ?run = before @ snd (sendLoop (net messageCard) maxRetries a)"
      unfolding sendWebhookWithRetry_def using sendLoop_reach by blast
    from lt obtain rest where n: "snd (sendLoop (net messageCard) maxRetries (a + 1)) = Send (a + 1) # rest"
      using sendLoop_starts_with_send [of "a + 1" maxRetries "net messageCard"] by auto
    have "snd (sendLoop (net messageCard) maxRetries a)
          = [Send a, Sleep (waitTime a), Send (a + 1)] @ rest"
      using sendLoop_retry [of a maxRetries "net messageCard"] lt r n by simp
    with b have "snd ?run = before @ [Send a, Sleep (waitTime a), Send (a + 1)] @ rest" by simp
    then show "\<exists>before after. snd ?run
        = before @ [Send a, Sleep (min (1000 * 2 ^ (a - 1)) 5000), Send (a + 1)] @ after"
      unfolding waitTime_def MAX_BACKOFF_MS_def by blast
  }
  {
    assume sent: "Send a \<in> set (snd ?run)" and st: "net messageCard a = HttpStatus s" "200 \<le> s" "s < 300"
    from sent have le: "a \<le> maxRetries"
      and x: "fst ?run = fst (sendLoop (net messageCard) maxRetries a)"
      and "\<exists>before. snd ?run = before @ snd (sendLoop (net messageCard) maxRetries a)"
      unfolding sendWebhookWithRetry_def using sendLoop_reach by blast+
    then obtain before where b: "snd ?run = before @ snd (sendLoop (net messageCard) maxRetries a)"
      by blast
    have stop: "sendLoop (net messageCard) maxRetries a = (SentOk, [Send a])"
      using sendLoop_success [of a maxRetries "net messageCard" s] le st by simp
    from x stop show "outcome_of (fst ?run) = Delivered" by simp
    from b stop show "\<exists>before. snd ?run = before @ [Send a]" by simp
  }
  {
    assume all: "\<forall>k. 1 \<le> k \<and> k \<le> maxRetries \<longrightarrow> retryable (net messageCard k)"
    have run: "?run = (if maxRetries = 0 then (GaveUp, [])
                else (GaveUp, concat (map (\<lambda>a. [Send a, Sleep (waitTime a)]) [1..<maxRetries])
                        @ [Send maxRetries]))"
      unfolding sendWebhookWithRetry_def
      using all by (simp add: sendLoop_past sendLoop_all_retryable)
    then show "outcome_of (fst ?run) = Abandoned" by simp
    from run show "filter is_send (snd ?run) = map Send [1..<maxRetries + 1]"
      by (simp add: sends_of_retry_trace)
  }
  {
    assume "net messageCard 1 = HttpStatus 500" "net messageCard 2 = HttpStatus 500" "net messageCard 3 = HttpStatus 200"
    then show "sendWebhookWithRetry net messageCard 3
        = (SentOk, [Send 1, Sleep 1000, Send 2, Sleep 2000, Send 3])"
      by (simp add: sendWebhookWithRetry_def sendLoop.simps [of _ _ "Suc 0"]
          sendLoop.simps [of _ _ 2] sendLoop.simps [of _ _ 3]
          axios_post_def validateStatus_def waitTime_def MAX_BACKOFF_MS_def
          numeral_2_eq_2 [symmetric])
  }
  {
    assume "net messageCard 1 = TransportFailure ECONNABORTED" "net messageCard 2 = TransportFailure ECONNABORTED"
      "net messageCard 3 = TransportFailure ECONNABORTED"
    then show "sendWebhookWithRetry net messageCard 3
        = (GaveUp, [Send 1, Sleep 1000, Send 2, Sleep 2000, Send 3])"
      by (simp add: sendWebhookWithRetry_def sendLoop.simps [of _ _ "Suc 0"]
          sendLoop.simps [of _ _ 2] sendLoop.simps [of _ _ 3] sendLoop.simps [of _ _ 4]
          axios_post_def validateStatus_def waitTime_def MAX_BACKOFF_MS_def
          numeral_2_eq_2 [symmetric])
  }
qed


theorem delivery_retry_backoff_witness:
  "Send 2 \<in> set (snd (sendWebhookWithRetry
       (\<lambda>messageCard. script [HttpStatus 500, HttpStatus 503, HttpStatus 200]) () 3)) \<and>
   retryable (script [HttpStatus 500, HttpStatus 503, HttpStatus 200] 2) \<and>
   (\<exists>before after. snd (sendWebhookWithRetry
       (\<lambda>messageCard. script [HttpStatus 500, HttpStatus 503, HttpStatus 200]) () 3)
       = before @ [Send 2, Sleep 2000, Send 3] @ after) \<and>
   Send 3 \<in> set (snd (sendWebhookWithRetry
       (\<lambda>messageCard. script [HttpStatus 500, HttpStatus 503, HttpStatus 200]) () 3)) \<and>
   script [HttpStatus 500, HttpStatus 503, HttpStatus 200] 3 = HttpStatus 200 \<and>
   outcome_of (fst (sendWebhookWithRetry
       (\<lambda>messageCard. script [HttpStatus 500, HttpStatus 503, HttpStatus 200]) () 3)) = Delivered \<and>
   retryable (TransportFailure ENOTFOUND) \<and>
   outcome_of (fst (sendWebhookWithRetry (\<lambda>messageCard k. TransportFailure ENOTFOUND) () 4))
     = Abandoned \<and>
   filter is_send (snd (sendWebhookWithRetry (\<lambda>messageCard k. TransportFailure ENOTFOUND) () 4))
     = [Send 1, Send 2, Send 3, Send 4]"
proof -
  let ?net = "\<lambda>messageCard::unit. script [HttpStatus 500, HttpStatus 503, HttpStatus 200]"
  let ?down = "\<lambda>(messageCard::unit) (k::nat). TransportFailure ENOTFOUND"
  have run: "sendWebhookWithRetry ?net () 3
             = (SentOk, [Send 1, Sleep 1000, Send 2, Sleep 2000, Send 3])"
    by code_simp
  have h1: "Send 2 \<in> set (snd (sendWebhookWithRetry ?net () 3)) \<and> retryable (?net () 2)
            \<and> (2::nat) < 3"
    by (simp add: run retryable_def)
  have h2: "Send 3 \<in> set (snd (sendWebhookWithRetry ?net () 3)) \<and> ?net () 3 = HttpStatus 200
            \<and> (200::nat) \<le> 200 \<and> (200::nat) < 300"
    by (simp add: run)
  have h3: "\<forall>k. 1 \<le> k \<and> k \<le> 4 \<longrightarrow> retryable (?down () k)"
    by (simp add: retryable_def)
  have upt: "[1..<4 + 1] = [1, 2, 3, 4::nat]"
    by (simp add: upt_rec)
  note thm1 = delivery_retry_backoff [where a = 2 and net = "?net" and messageCard = "()" and maxRetries = 3 and s = 200]
  note thm2 = delivery_retry_backoff [where a = 3 and net = "?net" and messageCard = "()" and maxRetries = 3 and s = 200]
  note thm3 = delivery_retry_backoff [where a = 1 and net = "?down" and messageCard = "()" and maxRetries = 4 and s = 200]
  from thm1 h1 have "\<exists>before after. snd (sendWebhookWithRetry ?net () 3)
       = before @ [Send 2, Sleep (min (1000 * 2 ^ (2 - 1)) 5000), Send (2 + 1)] @ after"
    by blast
  then have c1: "\<exists>before after. snd (sendWebhookWithRetry ?net () 3)
       = before @ [Send 2, Sleep 2000, Send 3] @ after"
    by simp
  from thm2 h2 have c2: "outcome_of (fst (sendWebhookWithRetry ?net () 3)) = Delivered"
    by blast
  from thm3 h3 have c3: "outcome_of (fst (sendWebhookWithRetry ?down () 4)) = Abandoned
      \<and> filter is_send (snd (sendWebhookWithRetry ?down () 4)) = map Send [1..<4 + 1]"
    by blast
  from h1 h2 c1 c2 c3 upt show ?thesis
    by (simp add: retryable_def)
qed

text \<open>
  Claim C4. An attempt that receives a 4xx response ends the delivery at once, as
  abandoned: its request is the last action, so no request and no wait follows, whatever is
  left of the budget. A 404 response to the first attempt gives exactly one request.
\<close>

theorem delivery_client_error_stops:
  "(Send a \<in> set (snd (sendWebhookWithRetry net messageCard maxRetries)) \<and> net messageCard a = HttpStatus s
      \<and> 400 \<le> s \<and> s < 500 \<longrightarrow>
      fst (sendWebhookWithRetry net messageCard maxRetries) = ClientError \<and>
      outcome_of (fst (sendWebhookWithRetry net messageCard maxRetries)) = Abandoned \<and>
      (\<exists>before. snd (sendWebhookWithRetry net messageCard maxRetries) = before @ [Send a])) \<and>
   (1 \<le> maxRetries \<and> net messageCard 1 = HttpStatus 404 \<longrightarrow>
      sendWebhookWithRetry net messageCard maxRetries = (ClientError, [Send 1]))"
proof (intro conjI impI; (elim conjE)?)
  let ?run = "sendWebhookWithRetry net messageCard maxRetries"
  {
    assume sent: "Send a \<in> set (snd ?run)" and st: "net messageCard a = HttpStatus s" "400 \<le> s" "s < 500"
    from sent have le: "a \<le> maxRetries"
      and x: "fst ?run = fst (sendLoop (net messageCard) maxRetries a)"
      and "\<exists>before. snd ?run = before @ snd (sendLoop (net messageCard) maxRetries a)"
      unfolding sendWebhookWithRetry_def using sendLoop_reach by blast+
    then obtain before where b: "snd ?run = before @ snd (sendLoop (net messageCard) maxRetries a)"
      by blast
    have stop: "sendLoop (net messageCard) maxRetries a = (ClientError, [Send a])"
      using sendLoop_client_error [of a maxRetries "net messageCard" s] le st by simp
    from x stop show "fst ?run = ClientError" by simp
    then show "outcome_of (fst ?run) = Abandoned" by simp
    from b stop show "\<exists>before. snd ?run = before @ [Send a]" by simp
  }
  {
    assume "1 \<le> maxRetries" "net messageCard 1 = HttpStatus 404"
    then show "?run = (ClientError, [Send 1])"
      unfolding sendWebhookWithRetry_def
      using sendLoop_client_error [of 1 maxRetries "net messageCard" 404] by simp
  }
qed

theorem delivery_client_error_stops_witness:
  "Send 2 \<in> set (snd (sendWebhookWithRetry
       (\<lambda>messageCard. script [HttpStatus 503, HttpStatus 401, HttpStatus 200]) () 3)) \<and>
   script [HttpStatus 503, HttpStatus 401, HttpStatus 200] 2 = HttpStatus 401 \<and>
   fst (sendWebhookWithRetry
       (\<lambda>messageCard. script [HttpStatus 503, HttpStatus 401, HttpStatus 200]) () 3) = ClientError \<and>
   (\<exists>before. snd (sendWebhookWithRetry
       (\<lambda>messageCard. script [HttpStatus 503, HttpStatus 401, HttpStatus 200]) () 3)
       = before @ [Send 2]) \<and>
   script [HttpStatus 404] 1 = HttpStatus 404 \<and>
   sendWebhookWithRetry (\<lambda>messageCard. script [HttpStatus 404]) () 3 = (ClientError, [Send 1])"
proof -
  let ?net = "\<lambda>messageCard::unit. script [HttpStatus 503, HttpStatus 401, HttpStatus 200]"
  let ?gone = "\<lambda>messageCard::unit. script [HttpStatus 404]"
  have run: "sendWebhookWithRetry ?net () 3 = (ClientError, [Send 1, Sleep 1000, Send 2])"
    by code_simp
  have h1: "Send 2 \<in> set (snd (sendWebhookWithRetry ?net () 3)) \<and> ?net () 2 = HttpStatus 401
            \<and> (400::nat) \<le> 401 \<and> (401::nat) < 500"
    by (simp add: run)
  have h2: "(1::nat) \<le> 3 \<and> ?gone () 1 = HttpStatus 404"
    by simp
  from delivery_client_error_stops [where a = 2 and net = "?net" and messageCard = "()" and maxRetries = 3 and s = 401] h1
  have c1: "fst (sendWebhookWithRetry ?net () 3) = ClientError
      \<and> (\<exists>before. snd (sendWebhookWithRetry ?net () 3) = before @ [Send 2])"
    by blast
  from delivery_client_error_stops [where a = 2 and net = "?gone" and messageCard = "()" and maxRetries = 3 and s = 401] h2
  have c2: "sendWebhookWithRetry ?gone () 3 = (ClientError, [Send 1])"
    by blast
  from h1 h2 c1 c2 show ?thesis by simp
qed

text \<open>
  Claim C9. An attempt that receives a response below 400 that is not 2xx neither delivers
  nor abandons: when the budget is not used up the next request follows at once, with no
  wait in between, and when it was the last attempt the delivery is abandoned. A budget of
  such responses only gives one request per attempt, no wait, and an abandoned delivery.
\<close>

theorem delivery_other_response_no_backoff:
  "(Send a \<in> set (snd (sendWebhookWithRetry net messageCard maxRetries)) \<and> net messageCard a = HttpStatus s
      \<and> s < 400 \<and> \<not> (200 \<le> s \<and> s < 300) \<longrightarrow>
      (a < maxRetries \<longrightarrow>
         (\<exists>before after. snd (sendWebhookWithRetry net messageCard maxRetries)
             = before @ [Send a, Send (a + 1)] @ after)) \<and>
      (a = maxRetries \<longrightarrow>
         fst (sendWebhookWithRetry net messageCard maxRetries) = GaveUp \<and>
         (\<exists>before. snd (sendWebhookWithRetry net messageCard maxRetries) = before @ [Send a]))) \<and>
   ((\<forall>k. 1 \<le> k \<and> k \<le> maxRetries \<longrightarrow>
        (\<exists>code. net messageCard k = HttpStatus code \<and> code < 400
           \<and> \<not> (200 \<le> code \<and> code < 300))) \<longrightarrow>
      sendWebhookWithRetry net messageCard maxRetries = (GaveUp, map Send [1..<maxRetries + 1]) \<and>
      outcome_of (fst (sendWebhookWithRetry net messageCard maxRetries)) = Abandoned)"
proof (intro conjI impI; (elim conjE)?)
  let ?run = "sendWebhookWithRetry net messageCard maxRetries"
  {
    assume sent: "Send a \<in> set (snd ?run)"
      and st: "net messageCard a = HttpStatus s" "s < 400" "\<not> (200 \<le> s \<and> s < 300)"
    from sent have le: "a \<le> maxRetries"
      and x: "fst ?run = fst (sendLoop (net messageCard) maxRetries a)"
      and "\<exists>before. snd ?run = before @ snd (sendLoop (net messageCard) maxRetries a)"
      unfolding sendWebhookWithRetry_def using sendLoop_reach by blast+
    then obtain before where b: "snd ?run = before @ snd (sendLoop (net messageCard) maxRetries a)"
      by blast
    have step: "sendLoop (net messageCard) maxRetries a
                = apsnd ((#) (Send a)) (sendLoop (net messageCard) maxRetries (a + 1))"
      using sendLoop_other_response [of a maxRetries "net messageCard" s] le st by simp
    {
      assume lt: "a < maxRetries"
      then obtain rest where "snd (sendLoop (net messageCard) maxRetries (a + 1)) = Send (a + 1) # rest"
        using sendLoop_starts_with_send [of "a + 1" maxRetries "net messageCard"] by auto
      with b step have "snd ?run = before @ [Send a, Send (a + 1)] @ rest" by simp
      then show "\<exists>before after. snd ?run = before @ [Send a, Send (a + 1)] @ after" by blast
    }
    {
      assume eq: "a = maxRetries"
      with step have stop: "sendLoop (net messageCard) maxRetries a = (GaveUp, [Send a])"
        by (simp add: sendLoop_past)
      from x stop show "fst ?run = GaveUp" by simp
      from b stop show "\<exists>before. snd ?run = before @ [Send a]" by simp
    }
  }
  {
    assume all: "\<forall>k. 1 \<le> k \<and> k \<le> maxRetries \<longrightarrow>
        (\<exists>code. net messageCard k = HttpStatus code \<and> code < 400
           \<and> \<not> (200 \<le> code \<and> code < 300))"
    then show run: "?run = (GaveUp, map Send [1..<maxRetries + 1])"
      unfolding sendWebhookWithRetry_def
      using sendLoop_all_other [of 1 maxRetries "net messageCard"] by simp
    then show "outcome_of (fst ?run) = Abandoned" by simp
  }
qed

theorem delivery_other_response_no_backoff_witness:
  "Send 1 \<in> set (snd (sendWebhookWithRetry
       (\<lambda>messageCard. script [HttpStatus 302, HttpStatus 500, HttpStatus 304]) () 3)) \<and>
   script [HttpStatus 302, HttpStatus 500, HttpStatus 304] 1 = HttpStatus 302 \<and>
   (\<exists>before after. snd (sendWebhookWithRetry
       (\<lambda>messageCard. script [HttpStatus 302, HttpStatus 500, HttpStatus 304]) () 3)
       = before @ [Send 1, Send 2] @ after) \<and>
   Send 3 \<in> set (snd (sendWebhookWithRetry
       (\<lambda>messageCard. script [HttpStatus 302, HttpStatus 500, HttpStatus 304]) () 3)) \<and>
   script [HttpStatus 302, HttpStatus 500, HttpStatus 304] 3 = HttpStatus 304 \<and>
   fst (sendWebhookWithRetry
       (\<lambda>messageCard. script [HttpStatus 302, HttpStatus 500, HttpStatus 304]) () 3) = GaveUp \<and>
   sendWebhookWithRetry (\<lambda>messageCard k. HttpStatus 301) () 3 = (GaveUp, [Send 1, Send 2, Send 3])"
proof -
  let ?net = "\<lambda>messageCard::unit. script [HttpStatus 302, HttpStatus 500, HttpStatus 304]"
  let ?moved = "\<lambda>(messageCard::unit) (k::nat). HttpStatus 301"
  have run: "sendWebhookWithRetry ?net () 3 = (GaveUp, [Send 1, Send 2, Sleep 2000, Send 3])"
    by code_simp
  have h1: "Send 1 \<in> set (snd (sendWebhookWithRetry ?net () 3)) \<and> ?net () 1 = HttpStatus 302
            \<and> (302::nat) < 400 \<and> \<not> ((200::nat) \<le> 302 \<and> (302::nat) < 300) \<and> (1::nat) < 3"
    by (simp add: run)
  have h2: "Send 3 \<in> set (snd (sendWebhookWithRetry ?net () 3)) \<and> ?net () 3 = HttpStatus 304
            \<and> (304::nat) < 400 \<and> \<not> ((200::nat) \<le> 304 \<and> (304::nat) < 300) \<and> (3::nat) = 3"
    by (simp add: run)
  have h3: "\<forall>k. 1 \<le> k \<and> k \<le> 3 \<longrightarrow>
        (\<exists>code. ?moved () k = HttpStatus code \<and> code < 400
           \<and> \<not> (200 \<le> code \<and> code < 300))"
    by simp
  have upt: "[1..<3 + 1] = [1, 2, 3::nat]"
    by (simp add: upt_rec)
  from delivery_other_response_no_backoff [where a = 1 and net = "?net" and messageCard = "()" and maxRetries = 3 and s = 302] h1
  have "\<exists>before after. snd (sendWebhookWithRetry ?net () 3)
       = before @ [Send 1, Send (1 + 1)] @ after"
    by blast
  then have c1: "\<exists>before after. snd (sendWebhookWithRetry ?net () 3)
       = before @ [Send 1, Send 2] @ after"
    by (simp add: numeral_2_eq_2)
  from delivery_other_response_no_backoff [where a = 3 and net = "?net" and messageCard = "()" and maxRetries = 3 and s = 304] h2
  have c2: "fst (sendWebhookWithRetry ?net () 3) = GaveUp"
    by blast
  from delivery_other_response_no_backoff [where a = 1 and net = "?moved" and messageCard = "()" and maxRetries = 3 and s = 302] h3
  have c3: "sendWebhookWithRetry ?moved () 3 = (GaveUp, map Send [1..<3 + 1])"
    by blast
  from h1 h2 c1 c2 c3 upt show ?thesis by simp
qed

section \<open>The card and the end of the run: properties\<close>

subsection \<open>Rounding\<close>

text \<open>
  Rounding to a double moves a positive rational by at most half a unit in the last place,
  a relative error of \<open>2^-53\<close>; the pass rate as computed is therefore within \<open>2^-44\<close> of
  the exact percentage, and the tenths that \<^verbatim>\<open>toFixed(1)\<close> prints are within \<open>1/20\<close> of the
  number it is given.
\<close>

lemma round_half_even_error: "\<bar>of_int (round_half_even x) - x\<bar> \<le> 1 / 2"
proof -
  define f where "f = \<lfloor>x\<rfloor>"
  define d where "d = x - of_int f"
  have d: "0 \<le> d" "d < 1" and x: "x = of_int f + d"
    unfolding d_def f_def by linarith+
  have r: "round_half_even x
           = (if d < 1 / 2 then f else if 1 / 2 < d then f + 1 else if even f then f else f + 1)"
    by (simp add: round_half_even_def Let_def f_def d_def)
  consider "d < 1 / 2" | "1 / 2 < d" | "d = 1 / 2"
    by linarith
  then show ?thesis
  proof cases
    case 1
    with r have e: "round_half_even x = f" by simp
    show ?thesis unfolding e using x d 1 by simp
  next
    case 2
    with r have e: "round_half_even x = f + 1" by simp
    show ?thesis unfolding e using x d 2 by simp
  next
    case 3
    with r have "round_half_even x = f \<or> round_half_even x = f + 1" by simp
    then show ?thesis
    proof
      assume e: "round_half_even x = f"
      show ?thesis unfolding e using x 3 by simp
    next
      assume e: "round_half_even x = f + 1"
      show ?thesis unfolding e using x 3 by simp
    qed
  qed
qed

lemma round_half_even_nonneg: "0 \<le> x \<Longrightarrow> 0 \<le> round_half_even x"
  unfolding round_half_even_def Let_def by (auto simp: abs_if)

lemma binade_bounds:
  assumes "0 < q"
  shows "2 powi (binade q) \<le> q" and "q < 2 powi (binade q + 1)"
proof -
  obtain n d where nd: "quotient_of q = (n, d)"
    by (cases "quotient_of q")
  then have d: "0 < d" and q: "q = of_int n / of_int d"
    by (simp_all add: quotient_of_denom_pos quotient_of_div)
  with assms have n: "0 < n"
    by (simp add: zero_less_divide_iff)
  define bn bd where "bn = bitlen n" and "bd = bitlen d"
  from bitlen_bounds [OF n] have nb: "2 ^ nat (bn - 1) \<le> n" "n < 2 ^ nat bn"
    by (simp_all add: bn_def)
  from bitlen_bounds [OF d] have db: "2 ^ nat (bd - 1) \<le> d" "d < 2 ^ nat bd"
    by (simp_all add: bd_def)
  have bn1: "1 \<le> bn" and bd1: "1 \<le> bd"
    using n d by (simp_all add: bn_def bd_def bitlen_alt_def)
  have rn: "(2::rat) powi (bn - 1) \<le> of_int n" "of_int n < (2::rat) powi bn"
  proof -
    have "(of_int (2 ^ nat (bn - 1)) :: rat) \<le> of_int n"
      using nb(1) by (simp only: of_int_le_iff)
    then show "(2::rat) powi (bn - 1) \<le> of_int n"
      using bn1 by (simp add: power_int_def)
    have "(of_int n :: rat) < of_int (2 ^ nat bn)"
      using nb(2) by (simp only: of_int_less_iff)
    then show "of_int n < (2::rat) powi bn"
      using bn1 by (simp add: power_int_def)
  qed
  have rd: "(2::rat) powi (bd - 1) \<le> of_int d" "of_int d < (2::rat) powi bd"
  proof -
    have "(of_int (2 ^ nat (bd - 1)) :: rat) \<le> of_int d"
      using db(1) by (simp only: of_int_le_iff)
    then show "(2::rat) powi (bd - 1) \<le> of_int d"
      using bd1 by (simp add: power_int_def)
    have "(of_int d :: rat) < of_int (2 ^ nat bd)"
      using db(2) by (simp only: of_int_less_iff)
    then show "of_int d < (2::rat) powi bd"
      using bd1 by (simp add: power_int_def)
  qed
  have dpos: "(0::rat) < of_int d" using d by simp
  have npos: "(0::rat) < of_int n" using n by simp
  have lower: "(2::rat) powi (bn - bd - 1) < q"
  proof -
    have "(2::rat) powi (bn - bd - 1) = 2 powi (bn - 1) / 2 powi bd"
      by (simp add: power_int_diff)
    also have "\<dots> \<le> of_int n / 2 powi bd"
      using rn(1) by (simp add: divide_right_mono)
    also have "\<dots> < of_int n / of_int d"
      using rd(2) npos dpos by (simp add: divide_strict_left_mono)
    finally show ?thesis by (simp add: q)
  qed
  have upper: "q < (2::rat) powi (bn - bd + 1)"
  proof -
    have "q = of_int n / of_int d" by (rule q)
    also have "\<dots> < 2 powi bn / of_int d"
      using rn(2) dpos by (simp add: divide_strict_right_mono)
    also have "\<dots> \<le> 2 powi bn / 2 powi (bd - 1)"
      using rd(1) by (intro frac_le) simp_all
    also have "\<dots> = 2 powi (bn - (bd - 1))"
      by (simp add: power_int_diff)
    also have "bn - (bd - 1) = bn - bd + 1"
      by simp
    finally show ?thesis .
  qed
  have b: "binade q = (if (2::rat) powi (bn - bd) \<le> q then bn - bd else bn - bd - 1)"
    by (simp add: binade_def nd bn_def bd_def)
  show "2 powi (binade q) \<le> q"
    using lower by (simp add: b)
  show "q < 2 powi (binade q + 1)"
    using upper by (auto simp: b not_le)
qed


lemma fl_zero: "fl 0 = 0"
  by (simp add: fl_def)

lemma fl_error:
  assumes "0 < q"
  shows "\<bar>fl q - q\<bar> \<le> q / 2 ^ 53" and "0 \<le> fl q"
proof -
  define u :: rat where "u = 2 powi (binade q - 52)"
  have u: "0 < u" by (simp add: u_def)
  have f: "fl q = of_int (round_half_even (q / u)) * u"
    using assms by (simp add: fl_def u_def Let_def)
  have "fl q - q = (of_int (round_half_even (q / u)) - q / u) * u"
    using u by (simp add: f algebra_simps)
  then have "\<bar>fl q - q\<bar> = \<bar>of_int (round_half_even (q / u)) - q / u\<bar> * u"
    using u by (simp add: abs_mult)
  also have "\<dots> \<le> 1 / 2 * u"
    using round_half_even_error [of "q / u"] u by (intro mult_right_mono) simp_all
  also have "1 / 2 * u = 2 powi (binade q) / 2 ^ 53"
  proof -
    have "u = 2 powi (binade q) / 2 powi 52"
      unfolding u_def by (simp add: power_int_diff)
    then show ?thesis by simp
  qed
  also have "\<dots> \<le> q / 2 ^ 53"
    using binade_bounds(1) [OF assms] by (simp add: divide_right_mono)
  finally show "\<bar>fl q - q\<bar> \<le> q / 2 ^ 53" .
  have "0 \<le> q / u" using assms u by simp
  then have "0 \<le> round_half_even (q / u)" by (rule round_half_even_nonneg)
  with u show "0 \<le> fl q" by (simp add: f)
qed

lemma pass_rate_accuracy:
  fixes a b :: nat
  assumes "a \<le> b" and "0 < b"
  shows "0 \<le> js_mul (js_div (of_nat a) (of_nat b)) 100"
    and "\<bar>js_mul (js_div (of_nat a) (of_nat b)) 100 - 100 * of_nat a / of_nat b\<bar> \<le> 1 / 2 ^ 44"
proof -
  define r :: rat where "r = of_nat a / of_nat b"
  define x where "x = js_div (of_nat a) (of_nat b)"
  define y where "y = js_mul x 100"
  have r: "0 \<le> r" "r \<le> 1"
    using assms by (simp_all add: r_def)
  have x: "0 \<le> x \<and> \<bar>x - r\<bar> \<le> r / 2 ^ 53"
  proof (cases "r = 0")
    case True
    then show ?thesis by (simp add: x_def js_div_def r_def [symmetric] fl_zero)
  next
    case False
    with r have "0 < r" by simp
    from fl_error [OF this] show ?thesis
      by (simp add: x_def js_div_def r_def [symmetric])
  qed
  have y: "0 \<le> y \<and> \<bar>y - x * 100\<bar> \<le> x * 100 / 2 ^ 53"
  proof (cases "x = 0")
    case True
    then show ?thesis by (simp add: y_def js_mul_def fl_zero)
  next
    case False
    with x have "0 < x * 100" by simp
    from fl_error [OF this] show ?thesis
      by (simp add: y_def js_mul_def)
  qed
  have "r / 2 ^ 53 \<le> 1"
    using r by simp
  with x r have x2: "x \<le> 2"
    by linarith
  have "y - 100 * r = (y - x * 100) + 100 * (x - r)"
    by (simp add: algebra_simps)
  then have "\<bar>y - 100 * r\<bar> \<le> \<bar>y - x * 100\<bar> + \<bar>100 * (x - r)\<bar>"
    using abs_triangle_ineq [of "y - x * 100" "100 * (x - r)"] by simp
  also have "\<bar>100 * (x - r)\<bar> = 100 * \<bar>x - r\<bar>"
    by (simp only: abs_mult abs_numeral)
  finally have "\<bar>y - 100 * r\<bar> \<le> \<bar>y - x * 100\<bar> + 100 * \<bar>x - r\<bar>" .
  also have "\<dots> \<le> x * 100 / 2 ^ 53 + 100 * (r / 2 ^ 53)"
    using x y by (intro add_mono mult_left_mono) simp_all
  also have "\<dots> \<le> 2 * 100 / 2 ^ 53 + 100 * (1 / 2 ^ 53)"
    using x2 r by (intro add_mono mult_left_mono divide_right_mono mult_right_mono) simp_all
  also have "\<dots> \<le> 1 / 2 ^ 44"
    by simp
  finally have "\<bar>y - 100 * r\<bar> \<le> 1 / 2 ^ 44" .
  then show "\<bar>js_mul (js_div (of_nat a) (of_nat b)) 100 - 100 * of_nat a / of_nat b\<bar> \<le> 1 / 2 ^ 44"
    by (simp add: y_def x_def r_def)
  from y show "0 \<le> js_mul (js_div (of_nat a) (of_nat b)) 100"
    by (simp add: y_def x_def)
qed

lemma toFixed1_accuracy:
  assumes "0 \<le> y"
  shows "\<exists>n. toFixed1 y = show_nat (n div 10) @ ''.'' @ show_nat (n mod 10)
           \<and> \<bar>of_nat n / 10 - y\<bar> \<le> 1 / 20"
proof -
  define k where "k = \<lfloor>y * 10 + 1 / 2\<rfloor>"
  have k0: "0 \<le> k"
    using assms by (simp add: k_def)
  have "of_int k \<le> y * 10 + 1 / 2" "y * 10 + 1 / 2 < of_int k + 1"
    unfolding k_def by linarith+
  then have "\<bar>of_int k / 10 - y\<bar> \<le> 1 / 20"
    by linarith
  moreover have "(of_nat (nat k) :: rat) = of_int k"
    using k0 by simp
  ultimately have "\<bar>of_nat (nat k) / 10 - y\<bar> \<le> 1 / 20"
    by simp
  moreover have "toFixed1 y = show_nat (nat k div 10) @ ''.'' @ show_nat (nat k mod 10)"
    by (simp add: toFixed1_def k_def Let_def)
  ultimately show ?thesis by blast
qed

subsection \<open>The facts of the card\<close>

lemma show_nat_5: "show_nat 5 = ''5''"
  by code_simp

lemma rate_8_of_10: "toFixed1 (js_mul (js_div 8 10) 100) = ''80.0''"
  by code_simp

text \<open>
  Claim C6. The value of the fact that the card shows as failed is the failed count plus
  the timed-out count. The overall status is FAILED when that sum is positive, otherwise
  UNSTABLE when the flaky count is positive, otherwise PASSED; the theme colour is one of
  three fixed values chosen by the same condition, and the card carries both.
\<close>

theorem failed_total_and_overall_status:
  "fact_value (buildMessageCard st duration timestamp ciMetadata reportUrl) FailedTests
     = Some (show_nat (failed (testResults st) + timedout (testResults st))) \<and>
   status_text (getOverallStatus st)
     = (if failed (testResults st) + timedout (testResults st) > 0 then ''FAILED''
        else if flaky (testResults st) > 0 then ''UNSTABLE''
        else ''PASSED'') \<and>
   getThemeColor st
     = (if failed (testResults st) + timedout (testResults st) > 0 then ''dc3545''
        else if flaky (testResults st) > 0 then ''ffc107''
        else ''28a745'') \<and>
   themeColor (buildMessageCard st duration timestamp ciMetadata reportUrl) = getThemeColor st \<and>
   summary (buildMessageCard st duration timestamp ciMetadata reportUrl)
     = ''Playwright Test Results - '' @ status_text (getOverallStatus st)"
  by (simp add: fact_value_def buildMessageCard_def summary_facts_def getOverallStatus_def
      getThemeColor_def Let_def)

theorem failed_total_and_overall_status_witness:
  "fact_value (buildMessageCard (sample_counts 3 2 0 1 3) ''12s'' ''now'' [] None) FailedTests
     = Some ''5'' \<and>
   status_text (getOverallStatus (sample_counts 3 2 0 1 3)) = ''FAILED'' \<and>
   status_text (getOverallStatus (sample_counts 3 0 0 1 0)) = ''UNSTABLE'' \<and>
   status_text (getOverallStatus (sample_counts 3 0 1 0 0)) = ''PASSED'' \<and>
   getThemeColor (sample_counts 3 0 0 0 2) = ''dc3545'' \<and>
   getThemeColor (sample_counts 3 0 0 1 0) = ''ffc107'' \<and>
   getThemeColor (sample_counts 3 0 1 0 0) = ''28a745''"
  using
    failed_total_and_overall_status [of "sample_counts 3 2 0 1 3" "''12s''" "''now''" "[]" None]
    failed_total_and_overall_status [of "sample_counts 3 0 0 1 0" "''12s''" "''now''" "[]" None]
    failed_total_and_overall_status [of "sample_counts 3 0 1 0 0" "''12s''" "''now''" "[]" None]
    failed_total_and_overall_status [of "sample_counts 3 0 0 0 2" "''12s''" "''now''" "[]" None]
  by (simp add: sample_counts_def show_nat_5)

text \<open>
  Claim C7. With the truncate length of the source (200), a message of at most 200
  code units is returned unchanged; a longer one becomes its first 197 code units
  followed by the three-character marker \<open>...\<close>, which makes 200 code units in all. A
  message of length 250 is the instance the specification names.
\<close>

theorem truncateError_200:
  "(length e \<le> 200 \<longrightarrow> truncateError e ERROR_TRUNCATE_LENGTH = e) \<and>
   (200 < length e \<longrightarrow>
      truncateError e ERROR_TRUNCATE_LENGTH = take 197 e @ ''...'' \<and>
      length (truncateError e ERROR_TRUNCATE_LENGTH) = 200) \<and>
   (length e = 250 \<longrightarrow>
      truncateError e ERROR_TRUNCATE_LENGTH = take 197 e @ ''...'' \<and>
      length (take 197 e) = 197 \<and>
      length (truncateError e ERROR_TRUNCATE_LENGTH) = 200)"
  by (simp add: truncateError_def substring0_def ERROR_TRUNCATE_LENGTH_def)

theorem truncateError_200_witness:
  "truncateError ''short message'' ERROR_TRUNCATE_LENGTH = ''short message'' \<and>
   length (replicate 250 CHR ''x'') = 250 \<and>
   truncateError (replicate 250 CHR ''x'') ERROR_TRUNCATE_LENGTH
     = replicate 197 CHR ''x'' @ ''...'' \<and>
   length (truncateError (replicate 250 CHR ''x'') ERROR_TRUNCATE_LENGTH) = 200"
  using truncateError_200 [of "''short message''"]
    truncateError_200 [of "replicate 250 CHR ''x''"]
  by simp

text \<open>
  Claim C8. When no webhook address is configured (the address is undefined, or empty),
  the handler of the end of the run returns normally with the reporter as it was: the
  attempts are not classified, no card is built, the delivery client is not called, and
  the only action is the console line that reports the skip.
\<close>

theorem onEnd_without_webhook:
  assumes "webhookUrl st = None \<or> webhookUrl st = Some []"
  shows "onEnd st duration timestamp ciMetadata reportUrl net
         = Inr (st, None, [Log ''Skipping Teams notification (no webhook URL configured)''])"
  using assms by (auto simp: onEnd_def truthy_def)

theorem onEnd_without_webhook_witness:
  "webhookUrl (new_reporter None ''demo'') = None \<and>
   onEnd (run_events (new_reporter None ''demo'') [(sample_test ''t1'', sample_result Failed 0)])
     ''12s'' ''now'' [] None (\<lambda>messageCard k. HttpStatus 200)
   = Inr (run_events (new_reporter None ''demo'') [(sample_test ''t1'', sample_result Failed 0)],
          None, [Log ''Skipping Teams notification (no webhook URL configured)''])"
  using onEnd_without_webhook
    [of "run_events (new_reporter None ''demo'') [(sample_test ''t1'', sample_result Failed 0)]"
      "''12s''" "''now''" "[]" None "\<lambda>messageCard k. HttpStatus 200"]
  by (simp add: new_reporter_def onTestEnd_def Let_def)

text \<open>
  Claim C10. The pass rate among the facts of the card counts flaky tests as passing: it
  is the passed count plus the flaky count, divided by the total of the five counts and
  multiplied by 100 in double-precision arithmetic, written with one decimal place and
  followed by a percent sign; when the total is zero it is the fixed text \<open>0.0\<close>. The
  tenths written are within \<open>1/20 + 2^-44\<close> of the exact percentage.
\<close>

theorem pass_rate_counts_flaky:
  "fact_value (buildMessageCard st duration timestamp ciMetadata reportUrl) PassRate
     = Some ((if total (testResults st) > 0
              then toFixed1 (js_mul (js_div (of_nat (passed (testResults st) + flaky (testResults st)))
                                            (of_nat (total (testResults st)))) 100)
              else ''0.0'') @ ''%'') \<and>
   (total (testResults st) = 0 \<longrightarrow>
      fact_value (buildMessageCard st duration timestamp ciMetadata reportUrl) PassRate
        = Some ''0.0%'') \<and>
   (total (testResults st) > 0 \<longrightarrow>
      (\<exists>n. fact_value (buildMessageCard st duration timestamp ciMetadata reportUrl) PassRate
              = Some (show_nat (n div 10) @ ''.'' @ show_nat (n mod 10) @ ''%'')
          \<and> \<bar>of_nat n / 10
               - 100 * of_nat (passed (testResults st) + flaky (testResults st))
                 / of_nat (total (testResults st))\<bar>
              \<le> (1 / 20 + 1 / 2 ^ 44 :: rat)))"
proof -
  let ?card = "buildMessageCard st duration timestamp ciMetadata reportUrl"
  let ?good = "passed (testResults st) + flaky (testResults st)"
  let ?all = "total (testResults st)"
  let ?y = "js_mul (js_div (of_nat ?good) (of_nat ?all)) 100"
  have v: "fact_value ?card PassRate
           = Some ((if ?all > 0 then toFixed1 ?y else ''0.0'') @ ''%'')"
    by (simp add: fact_value_def buildMessageCard_def summary_facts_def total_def Let_def)
  have z: "fact_value ?card PassRate = Some ''0.0%''" if "?all = 0"
    using that by (simp add: v)
  have a: "\<exists>n. fact_value ?card PassRate
               = Some (show_nat (n div 10) @ ''.'' @ show_nat (n mod 10) @ ''%'')
             \<and> \<bar>of_nat n / 10 - 100 * of_nat ?good / of_nat ?all\<bar>
                 \<le> (1 / 20 + 1 / 2 ^ 44 :: rat)"
    if pos: "?all > 0"
  proof -
    have le: "?good \<le> ?all" by (simp add: total_def)
    note acc = pass_rate_accuracy [OF le pos]
    from toFixed1_accuracy [OF acc(1)] obtain n where
      n: "toFixed1 ?y = show_nat (n div 10) @ ''.'' @ show_nat (n mod 10)"
         "\<bar>of_nat n / 10 - ?y\<bar> \<le> 1 / 20"
      by blast
    have "of_nat n / 10 - 100 * of_nat ?good / of_nat ?all
          = (of_nat n / 10 - ?y) + (?y - 100 * of_nat ?good / of_nat ?all)"
      by simp
    then have "\<bar>of_nat n / 10 - 100 * of_nat ?good / of_nat ?all\<bar>
          \<le> \<bar>of_nat n / 10 - ?y\<bar> + \<bar>?y - 100 * of_nat ?good / of_nat ?all\<bar>"
      using abs_triangle_ineq
        [of "of_nat n / 10 - ?y" "?y - 100 * of_nat ?good / of_nat ?all"]
      by simp
    also have "\<dots> \<le> 1 / 20 + 1 / 2 ^ 44"
      using n(2) acc(2) by (rule add_mono)
    finally have "\<bar>of_nat n / 10 - 100 * of_nat ?good / of_nat ?all\<bar>
          \<le> (1 / 20 + 1 / 2 ^ 44 :: rat)" .
    moreover have "fact_value ?card PassRate
          = Some (show_nat (n div 10) @ ''.'' @ show_nat (n mod 10) @ ''%'')"
    proof -
      from pos v have "fact_value ?card PassRate = Some (toFixed1 ?y @ ''%'')"
        by (simp del: of_nat_add)
      then show ?thesis unfolding n(1) by simp
    qed
    ultimately show ?thesis by blast
  qed
  from v z a show ?thesis by blast
qed

theorem pass_rate_counts_flaky_witness:
  "total (testResults (sample_counts 6 2 0 2 0)) = 10 \<and>
   fact_value (buildMessageCard (sample_counts 6 2 0 2 0) ''12s'' ''now'' [] None) PassRate
     = Some ''80.0%'' \<and>
   (\<exists>n. fact_value (buildMessageCard (sample_counts 6 2 0 2 0) ''12s'' ''now'' [] None) PassRate
          = Some (show_nat (n div 10) @ ''.'' @ show_nat (n mod 10) @ ''%'')
      \<and> \<bar>of_nat n / 10 - 80\<bar> \<le> (1 / 20 + 1 / 2 ^ 44 :: rat)) \<and>
   total (testResults (sample_counts 0 0 0 0 0)) = 0 \<and>
   fact_value (buildMessageCard (sample_counts 0 0 0 0 0) ''12s'' ''now'' [] None) PassRate
     = Some ''0.0%''"
proof -
  have t1: "total (testResults (sample_counts 6 2 0 2 0)) = 10"
    and g1: "passed (testResults (sample_counts 6 2 0 2 0))
             + flaky (testResults (sample_counts 6 2 0 2 0)) = 8"
    and t0: "total (testResults (sample_counts 0 0 0 0 0)) = 0"
    by (simp_all add: sample_counts_def total_def)
  note full = pass_rate_counts_flaky
    [of "sample_counts 6 2 0 2 0" "''12s''" "''now''" "[]" None, unfolded t1 g1]
  note none = pass_rate_counts_flaky [of "sample_counts 0 0 0 0 0" "''12s''" "''now''" "[]" None]
  from full
  have "fact_value (buildMessageCard (sample_counts 6 2 0 2 0) ''12s'' ''now'' [] None) PassRate
      = Some ((if (0::nat) < 10 then toFixed1 (js_mul (js_div (of_nat 8) (of_nat 10)) 100)
               else ''0.0'') @ ''%'')"
    by (rule conjunct1)
  then have c1: "fact_value (buildMessageCard (sample_counts 6 2 0 2 0) ''12s'' ''now'' [] None)
      PassRate = Some ''80.0%''"
    by (simp add: rate_8_of_10)
  have "(0::nat) < 10"
    by simp
  with full
  have "\<exists>n. fact_value (buildMessageCard (sample_counts 6 2 0 2 0) ''12s'' ''now'' [] None) PassRate
          = Some (show_nat (n div 10) @ ''.'' @ show_nat (n mod 10) @ ''%'')
      \<and> \<bar>of_nat n / 10 - 100 * of_nat 8 / of_nat 10\<bar> \<le> (1 / 20 + 1 / 2 ^ 44 :: rat)"
    by blast
  then have c2: "\<exists>n. fact_value (buildMessageCard (sample_counts 6 2 0 2 0) ''12s'' ''now'' [] None)
            PassRate
          = Some (show_nat (n div 10) @ ''.'' @ show_nat (n mod 10) @ ''%'')
      \<and> \<bar>of_nat n / 10 - 80\<bar> \<le> (1 / 20 + 1 / 2 ^ 44 :: rat)"
    by simp
  from none t0
  have c3: "fact_value (buildMessageCard (sample_counts 0 0 0 0 0) ''12s'' ''now'' [] None) PassRate
      = Some ''0.0%''"
    by blast
  from c1 c2 c3 t1 t0 show ?thesis by blast
qed

end
